theory Spec2Isabelle
  imports Main "HOL-Library.Sublist"
begin

section \<open>Strings as Python and the store see them\<close>

text \<open>
  A Python \<open>str\<close> is modelled as a \<open>string\<close>; a character is a code point below 256 and
  \<open>length\<close> is Python's \<open>len\<close>.  \<open>None\<close> is the \<open>None\<close> of an option type, and a value is
  "truthy" when it is neither \<open>None\<close> nor the empty string.
\<close>

definition truthy :: "string option \<Rightarrow> bool" where
  "truthy v = (case v of None \<Rightarrow> False | Some s \<Rightarrow> s \<noteq> [])"

text \<open>\<open>str.isspace\<close> on the code points below 256, and \<open>str.strip()\<close>.\<close>

definition py_isspace :: "char \<Rightarrow> bool" where
  "py_isspace c = (c \<in> set [CHR 0x09, CHR 0x0A, CHR 0x0B, CHR 0x0C, CHR 0x0D,
                              CHR 0x1C, CHR 0x1D, CHR 0x1E, CHR 0x1F, CHR 0x20,
                              CHR 0x85, CHR 0xA0])"

definition strip :: "string \<Rightarrow> string" where
  "strip s = rev (dropWhile py_isspace (rev (dropWhile py_isspace s)))"

text \<open>
  \<open>s.encode('utf-8', errors='ignore').decode('utf-8')\<close> drops the code points that UTF-8
  cannot encode (lone surrogates).  No modelled character is one, so the round trip
  returns its argument.
\<close>

definition utf8_roundtrip :: "string \<Rightarrow> string" where
  "utf8_roundtrip s = s"

text \<open>
  Case folding: \<open>str.lower()\<close> and the folding of \<open>ILIKE\<close>, on the code points below 256.
  The letters that have a lower case there are \<open>A\<close> to \<open>Z\<close> and the Latin-1 capitals 0xC0 to
  0xDE without the sign 0xD7; each has its lower case 0x20 above it.
\<close>

definition upper_case :: "char list" where
  "upper_case =
       [CHR 0x41, CHR 0x42, CHR 0x43, CHR 0x44, CHR 0x45, CHR 0x46, CHR 0x47, CHR 0x48,
        CHR 0x49, CHR 0x4A, CHR 0x4B, CHR 0x4C, CHR 0x4D, CHR 0x4E, CHR 0x4F, CHR 0x50,
        CHR 0x51, CHR 0x52, CHR 0x53, CHR 0x54, CHR 0x55, CHR 0x56, CHR 0x57, CHR 0x58,
        CHR 0x59, CHR 0x5A, CHR 0xC0, CHR 0xC1, CHR 0xC2, CHR 0xC3, CHR 0xC4, CHR 0xC5,
        CHR 0xC6, CHR 0xC7, CHR 0xC8, CHR 0xC9, CHR 0xCA, CHR 0xCB, CHR 0xCC, CHR 0xCD,
        CHR 0xCE, CHR 0xCF, CHR 0xD0, CHR 0xD1, CHR 0xD2, CHR 0xD3, CHR 0xD4, CHR 0xD5,
        CHR 0xD6, CHR 0xD8, CHR 0xD9, CHR 0xDA, CHR 0xDB, CHR 0xDC, CHR 0xDD, CHR 0xDE]"

definition lower_case :: "char list" where
  "lower_case =
       [CHR 0x61, CHR 0x62, CHR 0x63, CHR 0x64, CHR 0x65, CHR 0x66, CHR 0x67, CHR 0x68,
        CHR 0x69, CHR 0x6A, CHR 0x6B, CHR 0x6C, CHR 0x6D, CHR 0x6E, CHR 0x6F, CHR 0x70,
        CHR 0x71, CHR 0x72, CHR 0x73, CHR 0x74, CHR 0x75, CHR 0x76, CHR 0x77, CHR 0x78,
        CHR 0x79, CHR 0x7A, CHR 0xE0, CHR 0xE1, CHR 0xE2, CHR 0xE3, CHR 0xE4, CHR 0xE5,
        CHR 0xE6, CHR 0xE7, CHR 0xE8, CHR 0xE9, CHR 0xEA, CHR 0xEB, CHR 0xEC, CHR 0xED,
        CHR 0xEE, CHR 0xEF, CHR 0xF0, CHR 0xF1, CHR 0xF2, CHR 0xF3, CHR 0xF4, CHR 0xF5,
        CHR 0xF6, CHR 0xF8, CHR 0xF9, CHR 0xFA, CHR 0xFB, CHR 0xFC, CHR 0xFD, CHR 0xFE]"

definition lower_char :: "char \<Rightarrow> char" where
  "lower_char c = (case map_of (zip upper_case lower_case) c of None \<Rightarrow> c | Some l \<Rightarrow> l)"

definition lower :: "string \<Rightarrow> string" where
  "lower s = map lower_char s"

text \<open>
  SQL \<open>LIKE\<close> as PostgreSQL, the store of \<open>db.py\<close>, reads a pattern: \<open>%\<close> stands for any run
  of characters and \<open>_\<close> for any one character; the backslash is the escape character, and
  the character after it stands for itself; every other character stands for itself.  The
  first argument is the pattern, the second the text.
\<close>

fun like_match :: "string \<Rightarrow> string \<Rightarrow> bool" where
  "like_match [] [] = True"
| "like_match [] (c # cs) = False"
| "like_match (p # ps) [] = (p = CHR ''%'' \<and> like_match ps [])"
| "like_match (p # ps) (c # cs) =
     (if p = CHR 0x5C then (case ps of [] \<Rightarrow> False | q # qs \<Rightarrow> q = c \<and> like_match qs cs)
      else if p = CHR ''%'' then like_match ps (c # cs) \<or> like_match (p # ps) cs
      else (p = CHR ''_'' \<or> p = c) \<and> like_match ps cs)"

text \<open>
  A pattern that ends in an escape character with nothing after it.  PostgreSQL answers it
  with the error "LIKE pattern must not end with escape character"; a statement with such
  a pattern is taken to fail.
\<close>

fun dangling_escape :: "string \<Rightarrow> bool" where
  "dangling_escape [] = False"
| "dangling_escape [c] = (c = CHR 0x5C)"
| "dangling_escape (c # d # cs) =
     (if c = CHR 0x5C then dangling_escape cs else dangling_escape (d # cs))"

text \<open>
  The character NUL, which no text of the store can hold: the driver refuses a statement
  with such a parameter.
\<close>

definition has_nul :: "string \<Rightarrow> bool" where
  "has_nul s = (CHR 0x00 \<in> set s)"

text \<open>\<open>column.ilike(pattern)\<close>: \<open>LIKE\<close> after folding the case of both sides.\<close>

definition ilike :: "string \<Rightarrow> string \<Rightarrow> bool" where
  "ilike column pattern = like_match (lower pattern) (lower column)"

text \<open>
  \<open>int(s)\<close> for a string: surrounding whitespace is dropped, one sign is allowed, then
  decimal digits with single underscores between them.  \<open>None\<close> is Python's \<open>ValueError\<close>.
  The whitespace of \<open>int\<close> is narrower than that of \<open>strip\<close>: the separators 0x1C to 0x1F
  are not part of it.
\<close>

definition int_isspace :: "char \<Rightarrow> bool" where
  "int_isspace c = (c \<in> set [CHR 0x09, CHR 0x0A, CHR 0x0B, CHR 0x0C, CHR 0x0D, CHR 0x20,
                               CHR 0x85, CHR 0xA0])"

definition int_strip :: "string \<Rightarrow> string" where
  "int_strip s = rev (dropWhile int_isspace (rev (dropWhile int_isspace s)))"

definition is_digit :: "char \<Rightarrow> bool" where
  "is_digit c = (c \<in> set ''0123456789'')"

definition digit_val :: "char \<Rightarrow> int" where
  "digit_val c = int (of_char c) - 48"

fun parse_digits :: "int \<Rightarrow> string \<Rightarrow> int option" where
  "parse_digits acc [] = Some acc"
| "parse_digits acc [c] = (if is_digit c then Some (acc * 10 + digit_val c) else None)"
| "parse_digits acc (c # d # cs) =
     (if is_digit c then parse_digits (acc * 10 + digit_val c) (d # cs)
      else if c = CHR ''_'' \<and> is_digit d then parse_digits acc (d # cs)
      else None)"

definition parse_unsigned :: "string \<Rightarrow> int option" where
  "parse_unsigned s = (case s of [] \<Rightarrow> None
                       | c # cs \<Rightarrow> if is_digit c then parse_digits (digit_val c) cs else None)"

definition py_int :: "string \<Rightarrow> int option" where
  "py_int s = (case int_strip s of [] \<Rightarrow> None
               | c # cs \<Rightarrow> if c = CHR ''-'' then map_option uminus (parse_unsigned cs)
                          else if c = CHR ''+'' then parse_unsigned cs
                          else parse_unsigned (c # cs))"

section \<open>The tables and the database session\<close>

text \<open>
  Modelled from the spec: the row type \<open>models.task.Task\<close>, whose declaration is not among
  the sources.  The spec's data model gives the fields; the tools name the owner field
  \<open>user_id\<close>.  Time stamps are clock readings, handed to every operation as \<open>now\<close>
  (\<open>datetime.utcnow()\<close>).
\<close>

record task =
  t_id :: int
  t_user_id :: string
  t_title :: string
  t_description :: "string option"
  t_completed :: bool
  t_created_at :: nat
  t_updated_at :: nat

text \<open>
  What a tool returns (a dictionary with a \<open>status\<close> entry).  The \<open>message\<close> entries, which
  only render the same data for the reader, are left out; \<open>str(task.id)\<close> is kept as the
  integer it prints.
\<close>

datatype result =
    RError string
  | RWarning int string "string option" bool
  | RTask task
  | RList "task list"
  | RMultiple "(int \<times> string \<times> bool) list"
  | RDeleted int string

fun status_of :: "result \<Rightarrow> string" where
  "status_of (RError m) = ''error''"
| "status_of (RWarning i t d c) = ''warning''"
| "status_of (RTask t) = ''success''"
| "status_of (RList ts) = ''success''"
| "status_of (RMultiple cs) = ''multiple_matches''"
| "status_of (RDeleted i t) = ''success''"

text \<open>Tool parameters as the model emits them: a dictionary from names to strings.\<close>

type_synonym params = "string \<rightharpoonup> string"

text \<open>An entry of \<open>tool_results\<close> in \<open>chat_endpoint\<close>: the call and its output.\<close>

record tool_result =
  call_name :: string
  call_parameters :: params
  outputs :: result

text \<open>Rows of \<open>conversations\<close> and \<open>messages\<close> (\<open>models/conversation.py\<close>, \<open>models/message.py\<close>).\<close>

record conversation =
  c_id :: string
  c_user_id :: string
  c_created_at :: nat
  c_updated_at :: nat

record message =
  m_id :: string
  m_conversation_id :: string
  m_role :: string
  m_content :: string
  m_tool_calls :: "tool_result list option"
  m_created_at :: nat

record db =
  tasks :: "task list"
  conversations :: "conversation list"
  messages :: "message list"

text \<open>
  A SQLAlchemy session on the store.  \<open>stored\<close> is what is committed; \<open>pending\<close> is the
  session's own view inside its transaction: the committed rows with the inserts, deletes
  and attribute changes of loaded objects that the session has not committed yet (queries
  flush first, so they read \<open>pending\<close>).  \<open>commit\<close> makes the view durable, \<open>rollback\<close> and
  closing the session discard it.  Rows come back in table order where a query has no
  \<open>ORDER BY\<close>.  \<open>next_id\<close> is the sequence behind \<open>Task.id\<close>.

  The store refuses a statement in two cases that depend on the texts handed to it: a text
  parameter with NUL, and a \<open>LIKE\<close> pattern with a dangling escape.  \<open>add_task\<close>, whose body
  is a \<open>try\<close> with a handler, is modelled with both.  The other tools have no handler of
  their own for the store; their statements are taken to be accepted.
\<close>

record session =
  stored :: db
  pending :: db
  next_id :: int

definition commit :: "session \<Rightarrow> session" where
  "commit s = s\<lparr>stored := pending s\<rparr>"

definition rollback :: "session \<Rightarrow> session" where
  "rollback s = s\<lparr>pending := stored s\<rparr>"

definition close :: "session \<Rightarrow> session" where
  "close s = rollback s"

text \<open>\<open>session.add\<close> of a new \<open>Task(id=None, ...)\<close>: the store assigns the id.\<close>

definition insert_task :: "session \<Rightarrow> task \<Rightarrow> task \<times> session" where
  "insert_task s t =
     (let t' = t\<lparr>t_id := next_id s\<rparr>
      in (t', s\<lparr>pending := (pending s)\<lparr>tasks := tasks (pending s) @ [t']\<rparr>,
                 next_id := next_id s + 1\<rparr>))"

text \<open>
  An attribute assignment on a loaded \<open>Task\<close> object: the row with its primary key takes
  the object's values in the session's view.
\<close>

definition update_row :: "session \<Rightarrow> task \<Rightarrow> session" where
  "update_row s t =
     s\<lparr>pending := (pending s)\<lparr>tasks := map (\<lambda>r. if t_id r = t_id t then t else r)
                                           (tasks (pending s))\<rparr>\<rparr>"

text \<open>\<open>session.delete(task)\<close>.\<close>

definition delete_row :: "session \<Rightarrow> task \<Rightarrow> session" where
  "delete_row s t =
     s\<lparr>pending := (pending s)\<lparr>tasks := filter (\<lambda>r. t_id r \<noteq> t_id t) (tasks (pending s))\<rparr>\<rparr>"

text \<open>
  Exceptions: \<open>KeyError\<close> for \<open>parameters[k]\<close> on an absent key, \<open>ValueError\<close> (the unknown
  tool name of \<open>execute_tool\<close>, and the driver's refusal of a text with NUL), and
  \<open>OtherException\<close> for any other exception, with its message.  \<open>str_exn\<close> is \<open>str(e)\<close>: for
  a \<open>KeyError\<close> the key between single quotes.
\<close>

datatype exn = KeyError string | ValueError string | OtherException string

fun str_exn :: "exn \<Rightarrow> string" where
  "str_exn (KeyError k) = [CHR 0x27] @ k @ [CHR 0x27]"
| "str_exn (ValueError m) = m"
| "str_exn (OtherException m) = m"

section \<open>The tools (\<open>tools/task_tools.py\<close>)\<close>

text \<open>The cleaning of an argument at the head of \<open>add_task\<close>: \<open>if v: v = v.strip()...\<close>.\<close>

definition clean :: "string option \<Rightarrow> string option" where
  "clean v = (if truthy v then map_option (\<lambda>s. utf8_roundtrip (strip s)) v else v)"

text \<open>
  The two statements of \<open>add_task\<close>.  The duplicate lookup (l. 63-68) binds \<open>user_id\<close> and
  the pattern; the insert, sent by \<open>session.commit()\<close> (l. 96-98), binds the texts of the new
  row.  \<open>Inl\<close> is the exception with which the store refuses the statement.
\<close>

definition nul_message :: string where
  "nul_message = ''A string literal cannot contain NUL (0x00) characters.''"

definition escape_message :: string where
  "escape_message = ''LIKE pattern must not end with escape character''"

definition select_duplicate :: "session \<Rightarrow> string \<Rightarrow> string \<Rightarrow> exn + task option" where
  "select_duplicate session user_id pattern =
     (if has_nul user_id \<or> has_nul pattern then Inl (ValueError nul_message)
      else if dangling_escape pattern then Inl (OtherException escape_message)
      else Inr (find (\<lambda>t. t_user_id t = user_id \<and> ilike (t_title t) pattern)
                     (tasks (pending session))))"

definition add_and_commit :: "session \<Rightarrow> task \<Rightarrow> exn + task \<times> session" where
  "add_and_commit session new_task =
     (if has_nul (t_user_id new_task) \<or> has_nul (t_title new_task) \<or>
         has_nul (case t_description new_task of None \<Rightarrow> [] | Some d \<Rightarrow> d)
      then Inl (ValueError nul_message)
      else (let (new_task, session) = insert_task session new_task
            in Inr (new_task, commit session)))"

text \<open>The body of the \<open>try\<close> (l. 31-114): \<open>Inl\<close> is an exception on its way to the handler.\<close>

definition add_task_body :: "session \<Rightarrow> nat \<Rightarrow> string \<Rightarrow> string option \<Rightarrow> string option
                              \<Rightarrow> exn + result \<times> session" where
  "add_task_body session now user_id title description =
     (let title = clean title; description = clean description in
      case title of
        None \<Rightarrow> Inr (RError ''Title is required'', session)
      | Some title \<Rightarrow>
          if title = [] then Inr (RError ''Title is required'', session)
          else if length title > 255 then
            Inr (RError ''Title must be 255 characters or less'', session)
          else if truthy description \<and> length (the description) > 1000 then
            Inr (RError ''Description must be 1000 characters or less'', session)
          else
            (let title_normalized = lower title in
             case select_duplicate session user_id title_normalized of
               Inl e \<Rightarrow> Inl e
             | Inr (Some existing_task) \<Rightarrow>
                 Inr (RWarning (t_id existing_task) (t_title existing_task)
                               (t_description existing_task) (t_completed existing_task),
                      session)
             | Inr None \<Rightarrow>
                 (case add_and_commit session
                         \<lparr>t_id = 0, t_user_id = user_id, t_title = title,
                          t_description = (if truthy description then description else None),
                          t_completed = False, t_created_at = now, t_updated_at = now\<rparr> of
                    Inl e \<Rightarrow> Inl e
                  | Inr (new_task, session) \<Rightarrow> Inr (RTask new_task, session))))"

text \<open>
  \<open>add_task\<close>: the body, and the handler (l. 116-126) that rolls the session back and
  returns the error "Failed to add task: ..." (its \<open>details\<close> entry is left out).
\<close>

definition add_task :: "session \<Rightarrow> nat \<Rightarrow> string \<Rightarrow> string option \<Rightarrow> string option
                         \<Rightarrow> result \<times> session" where
  "add_task session now user_id title description =
     (case add_task_body session now user_id title description of
        Inr out \<Rightarrow> out
      | Inl e \<Rightarrow> (RError (''Failed to add task: '' @ str_exn e), rollback session))"

definition list_tasks :: "session \<Rightarrow> string \<Rightarrow> string \<Rightarrow> result" where
  "list_tasks session user_id status =
     (let query = filter (\<lambda>t. t_user_id t = user_id) (tasks (pending session));
          query = (if status = ''completed'' then filter (\<lambda>t. t_completed t) query
                   else if status = ''incomplete'' then filter (\<lambda>t. \<not> t_completed t) query
                   else query)
      in RList (rev (sort_key t_created_at query)))"

text \<open>
  The lookup that \<open>complete_task\<close> (l. 206-255), \<open>delete_task\<close> (l. 312-361) and
  \<open>update_task\<close> (l. 420-469) each spell out with the same text: first by id, where
  \<open>int(task_id)\<close> may raise \<open>ValueError\<close>, then by title fragment.
\<close>

datatype resolution = Resolved task | Ambiguous "task list" | NotFound

definition find_by_id :: "session \<Rightarrow> string \<Rightarrow> string option \<Rightarrow> task option" where
  "find_by_id session user_id task_id =
     (case task_id of
        None \<Rightarrow> None
      | Some tid \<Rightarrow>
          if tid = [] then None
          else (case py_int tid of
                  None \<Rightarrow> None
                | Some i \<Rightarrow> find (\<lambda>t. t_id t = i \<and> t_user_id t = user_id)
                                 (tasks (pending session))))"

definition find_by_title :: "session \<Rightarrow> string \<Rightarrow> string \<Rightarrow> task list" where
  "find_by_title session user_id title =
     filter (\<lambda>t. t_user_id t = user_id \<and> ilike (t_title t) (''%'' @ title @ ''%''))
            (tasks (pending session))"

definition resolve_reference :: "session \<Rightarrow> string \<Rightarrow> string option \<Rightarrow> string option
                                  \<Rightarrow> resolution" where
  "resolve_reference session user_id task_id title =
     (case find_by_id session user_id task_id of
        Some task \<Rightarrow> Resolved task
      | None \<Rightarrow>
          (case title of
             None \<Rightarrow> NotFound
           | Some title \<Rightarrow>
               if title = [] then NotFound
               else (case find_by_title session user_id title of
                       [] \<Rightarrow> NotFound
                     | [task] \<Rightarrow> Resolved task
                     | found \<Rightarrow> Ambiguous found)))"

definition candidates :: "task list \<Rightarrow> (int \<times> string \<times> bool) list" where
  "candidates ts = map (\<lambda>t. (t_id t, t_title t, t_completed t)) ts"

definition complete_task :: "session \<Rightarrow> nat \<Rightarrow> string \<Rightarrow> string option \<Rightarrow> string option
                              \<Rightarrow> result \<times> session" where
  "complete_task session now user_id task_id title =
     (if \<not> truthy task_id \<and> \<not> truthy title then
        (RError ''Must provide either task_id or title'', session)
      else case resolve_reference session user_id task_id title of
        Ambiguous found \<Rightarrow> (RMultiple (candidates found), session)
      | NotFound \<Rightarrow> (RError ''Task not found for this user'', session)
      | Resolved task \<Rightarrow>
          (let task = task\<lparr>t_completed := True, t_updated_at := now\<rparr>
           in (RTask task, commit (update_row session task))))"

definition delete_task :: "session \<Rightarrow> string \<Rightarrow> string option \<Rightarrow> string option
                            \<Rightarrow> result \<times> session" where
  "delete_task session user_id task_id title =
     (if \<not> truthy task_id \<and> \<not> truthy title then
        (RError ''Must provide either task_id or title'', session)
      else case resolve_reference session user_id task_id title of
        Ambiguous found \<Rightarrow> (RMultiple (candidates found), session)
      | NotFound \<Rightarrow> (RError ''Task not found for this user'', session)
      | Resolved task \<Rightarrow>
          (RDeleted (t_id task) (t_title task), commit (delete_row session task)))"

text \<open>
  \<open>update_task\<close> assigns the new title to the loaded object before it checks the
  description, and its error returns neither commit nor roll back: the session that comes
  back from the description error carries the new title as a pending change.
\<close>

definition update_task :: "session \<Rightarrow> nat \<Rightarrow> string \<Rightarrow> string option \<Rightarrow> string option
                            \<Rightarrow> string option \<Rightarrow> string option \<Rightarrow> result \<times> session" where
  "update_task session now user_id task_id old_title title description =
     (if \<not> truthy task_id \<and> \<not> truthy old_title then
        (RError ''Must provide either task_id or old_title'', session)
      else if title = None \<and> description = None then
        (RError ''At least one field (title or description) must be provided'', session)
      else case resolve_reference session user_id task_id old_title of
        Ambiguous found \<Rightarrow> (RMultiple (candidates found), session)
      | NotFound \<Rightarrow> (RError ''Task not found for this user'', session)
      | Resolved task \<Rightarrow>
          if title \<noteq> None \<and> (title = Some [] \<or> length (the title) > 255) then
            (RError ''Title must be between 1 and 255 characters'', session)
          else
            (let task = (case title of None \<Rightarrow> task
                         | Some ttl \<Rightarrow> task\<lparr>t_title := strip ttl\<rparr>);
                 session = update_row session task
             in if description \<noteq> None \<and> length (the description) > 1000 then
                  (RError ''Description must be 1000 characters or less'', session)
                else
                  (let task = (case description of None \<Rightarrow> task
                               | Some d \<Rightarrow>
                                   task\<lparr>t_description :=
                                          (if d \<noteq> [] then Some (strip d) else None)\<rparr>);
                       task = task\<lparr>t_updated_at := now\<rparr>
                   in (RTask task, commit (update_row session task)))))"

section \<open>The dispatcher (\<open>services/tool_executor.py\<close>)\<close>

definition subscript :: "params \<Rightarrow> string \<Rightarrow> exn + string" where
  "subscript parameters k = (case parameters k of None \<Rightarrow> Inl (KeyError k) | Some v \<Rightarrow> Inr v)"

text \<open>The \<open>try\<close> body (l. 28-68): \<open>Inl\<close> is an exception on its way out.\<close>

definition call_tool :: "session \<Rightarrow> nat \<Rightarrow> string \<Rightarrow> params \<Rightarrow> (exn + result) \<times> session" where
  "call_tool session now tool_name parameters =
     (if tool_name = ''add_task'' then
        (case subscript parameters ''user_id'' of
           Inl e \<Rightarrow> (Inl e, session)
         | Inr user_id \<Rightarrow>
             (case subscript parameters ''title'' of
                Inl e \<Rightarrow> (Inl e, session)
              | Inr title \<Rightarrow>
                  (let (r, s) = add_task session now user_id (Some title)
                                         (parameters ''description'')
                   in (Inr r, s))))
      else if tool_name = ''list_tasks'' then
        (case subscript parameters ''user_id'' of
           Inl e \<Rightarrow> (Inl e, session)
         | Inr user_id \<Rightarrow>
             (Inr (list_tasks session user_id
                     (case parameters ''status'' of None \<Rightarrow> ''all'' | Some v \<Rightarrow> v)),
              session))
      else if tool_name = ''complete_task'' then
        (case subscript parameters ''user_id'' of
           Inl e \<Rightarrow> (Inl e, session)
         | Inr user_id \<Rightarrow>
             (let (r, s) = complete_task session now user_id (parameters ''task_id'')
                                         (parameters ''title'')
              in (Inr r, s)))
      else if tool_name = ''delete_task'' then
        (case subscript parameters ''user_id'' of
           Inl e \<Rightarrow> (Inl e, session)
         | Inr user_id \<Rightarrow>
             (let (r, s) = delete_task session user_id (parameters ''task_id'')
                                       (parameters ''title'')
              in (Inr r, s)))
      else if tool_name = ''update_task'' then
        (case subscript parameters ''user_id'' of
           Inl e \<Rightarrow> (Inl e, session)
         | Inr user_id \<Rightarrow>
             (let (r, s) = update_task session now user_id (parameters ''task_id'')
                                       (parameters ''old_title'') (parameters ''title'')
                                       (parameters ''description'')
              in (Inr r, s)))
      else (Inl (ValueError (''Unknown tool: '' @ tool_name)), session))"

text \<open>
  The two handlers (l. 70-77): \<open>except ValueError\<close>, then \<open>except Exception\<close> for all the
  rest.  The result type still has room for an exception.
\<close>

definition execute_tool :: "session \<Rightarrow> nat \<Rightarrow> string \<Rightarrow> params \<Rightarrow> (exn + result) \<times> session" where
  "execute_tool session now tool_name parameters =
     (case call_tool session now tool_name parameters of
        (Inr result, s) \<Rightarrow> (Inr result, s)
      | (Inl (ValueError m), s) \<Rightarrow> (Inr (RError m), s)
      | (Inl e, s) \<Rightarrow> (Inr (RError (''Tool execution failed: '' @ str_exn e)), s))"

section \<open>The chat turn (\<open>routers/chat.py\<close>)\<close>

record chat_request =
  req_message :: string
  req_conversation_id :: "string option"

record cohere_response =
  r_text :: string
  r_tool_calls :: "(string \<times> params) list"

record chat_response =
  resp_message :: string
  resp_tool_calls :: "tool_result list"
  resp_conversation_id :: string
  resp_message_id :: string

datatype http_exception = HTTPException nat string

text \<open>
  The language model is outside the program: \<open>co.chat\<close> with a history and the tool schema
  (the first call) and \<open>co.chat\<close> with tool results (the second) are two functions of what
  the turn sends; \<open>None\<close> is a call that raised.
\<close>

record cohere =
  chat :: "string \<Rightarrow> (string \<times> string) list \<Rightarrow> cohere_response option"
  chat_tool_results :: "string \<Rightarrow> tool_result list \<Rightarrow> cohere_response option"

definition format_messages_for_cohere :: "message list \<Rightarrow> (string \<times> string) list" where
  "format_messages_for_cohere msgs =
     concat (map (\<lambda>msg. if m_role msg = ''user'' then [(''USER'', m_content msg)]
                         else if m_role msg = ''assistant'' then [(''CHATBOT'', m_content msg)]
                         else []) msgs)"

text \<open>
  Step 1 (l. 66-87): the conversation named by the request, which must belong to the user,
  or a new one, committed at once.  \<open>None\<close> is the 404.
\<close>

definition get_or_create_conversation ::
    "session \<Rightarrow> nat \<Rightarrow> string \<Rightarrow> string \<Rightarrow> string option \<Rightarrow> (conversation \<times> session) option" where
  "get_or_create_conversation session now uuid user_id conversation_id =
     (if truthy conversation_id then
        (case find (\<lambda>c. c_id c = the conversation_id \<and> c_user_id c = user_id)
                   (conversations (pending session)) of
           None \<Rightarrow> None
         | Some conversation \<Rightarrow> Some (conversation, session))
      else
        (let conversation = \<lparr>c_id = uuid, c_user_id = user_id,
                             c_created_at = now, c_updated_at = now\<rparr>;
             session = session\<lparr>pending := (pending session)
                         \<lparr>conversations := conversations (pending session) @ [conversation]\<rparr>\<rparr>
         in Some (conversation, commit session)))"

text \<open>Step 2 (l. 89-95): \<open>order_by(Message.created_at.asc()).limit(50)\<close>.\<close>

definition fetch_history :: "session \<Rightarrow> string \<Rightarrow> message list" where
  "fetch_history session conv_id =
     take 50 (sort_key m_created_at
                (filter (\<lambda>m. m_conversation_id m = conv_id) (messages (pending session))))"

text \<open>
  Step 5, the loop (l. 123-145): the user id of the route replaces whatever \<open>user_id\<close> the
  model put among the parameters, then the dispatcher runs the call.
\<close>

fun run_tool_calls :: "session \<Rightarrow> nat \<Rightarrow> string \<Rightarrow> (string \<times> params) list
                        \<Rightarrow> (exn + tool_result list) \<times> session" where
  "run_tool_calls session now user_id [] = (Inr [], session)"
| "run_tool_calls session now user_id ((tool_name, parameters) # rest) =
     (let tool_params = parameters(''user_id'' \<mapsto> user_id) in
      case execute_tool session now tool_name tool_params of
        (Inl e, session) \<Rightarrow> (Inl e, session)
      | (Inr result, session) \<Rightarrow>
          (case run_tool_calls session now user_id rest of
             (Inl e, session) \<Rightarrow> (Inl e, session)
           | (Inr results, session) \<Rightarrow>
               (Inr (\<lparr>call_name = tool_name, call_parameters = tool_params,
                      outputs = result\<rparr> # results), session)))"

text \<open>Step 6 (l. 171-198): both messages and the conversation's time stamp, one commit.\<close>

definition store_messages :: "session \<Rightarrow> nat \<Rightarrow> string \<Rightarrow> string \<Rightarrow> conversation \<Rightarrow> string
                                \<Rightarrow> string \<Rightarrow> tool_result list \<Rightarrow> session" where
  "store_messages session now uuid_user uuid_assistant conversation user_text reply tool_results =
     (let user_message = \<lparr>m_id = uuid_user, m_conversation_id = c_id conversation,
                           m_role = ''user'', m_content = user_text,
                           m_tool_calls = None, m_created_at = now\<rparr>;
          assistant_message = \<lparr>m_id = uuid_assistant, m_conversation_id = c_id conversation,
                                m_role = ''assistant'', m_content = reply,
                                m_tool_calls = (if tool_results \<noteq> [] then Some tool_results
                                                else None),
                                m_created_at = now\<rparr>;
          p = pending session
      in commit (session\<lparr>pending := p
           \<lparr>messages := messages p @ [user_message, assistant_message],
            conversations := map (\<lambda>c. if c_id c = c_id conversation
                                       then c\<lparr>c_updated_at := now\<rparr> else c)
                                 (conversations p)\<rparr>\<rparr>))"

definition internal_error :: http_exception where
  "internal_error = HTTPException 500 ''Failed to process chat message''"

text \<open>
  \<open>chat_endpoint\<close>, after the token has been read: \<open>token_user_id\<close> is the authenticated
  identity, \<open>user_id\<close> the one in the path.  \<open>Inl\<close> is the \<open>HTTPException\<close> that becomes the
  error response; the session is closed when the request ends (\<open>get_session\<close>).
\<close>

definition chat_endpoint :: "cohere \<Rightarrow> session \<Rightarrow> nat \<Rightarrow> string \<Rightarrow> string \<Rightarrow> string \<Rightarrow> string
                             \<Rightarrow> string \<Rightarrow> chat_request
                             \<Rightarrow> (http_exception + chat_response) \<times> session" where
  "chat_endpoint co session now uuid_conv uuid_user uuid_assistant token_user_id user_id request =
     (if token_user_id \<noteq> user_id then
        (Inl (HTTPException 403 ''Access denied: user_id mismatch''), close session)
      else case get_or_create_conversation session now uuid_conv user_id
                  (req_conversation_id request) of
        None \<Rightarrow> (Inl (HTTPException 404 ''Conversation not found''), close session)
      | Some (conversation, session) \<Rightarrow>
          (let chat_history = format_messages_for_cohere
                                (fetch_history session (c_id conversation))
           in case chat co (req_message request) chat_history of
                None \<Rightarrow> (Inl internal_error, close session)
              | Some cohere_response \<Rightarrow>
                  if r_tool_calls cohere_response \<noteq> [] then
                    (case run_tool_calls session now user_id (r_tool_calls cohere_response) of
                       (Inl e, session) \<Rightarrow> (Inl internal_error, close session)
                     | (Inr tool_results, session) \<Rightarrow>
                         (case chat_tool_results co (req_message request) tool_results of
                            None \<Rightarrow> (Inl internal_error, close session)
                          | Some final_response \<Rightarrow>
                              (let session = store_messages session now uuid_user uuid_assistant
                                               conversation (req_message request)
                                               (r_text final_response) tool_results
                               in (Inr \<lparr>resp_message = r_text final_response,
                                        resp_tool_calls = tool_results,
                                        resp_conversation_id = c_id conversation,
                                        resp_message_id = uuid_assistant\<rparr>,
                                   close session))))
                  else
                    (let session = store_messages session now uuid_user uuid_assistant
                                     conversation (req_message request)
                                     (r_text cohere_response) []
                     in (Inr \<lparr>resp_message = r_text cohere_response,
                              resp_tool_calls = [],
                              resp_conversation_id = c_id conversation,
                              resp_message_id = uuid_assistant\<rparr>,
                         close session))))"

section \<open>The notions of the specification\<close>

text \<open>
  The specification's words for the two title comparisons: a title fragment matches a
  title when it is a substring of it, case-insensitively, and two titles are duplicates
  when they are equal, case-insensitively.
\<close>

definition substring_match :: "string \<Rightarrow> string \<Rightarrow> bool" where
  "substring_match fragment title = sublist (lower fragment) (lower title)"

definition same_title :: "string \<Rightarrow> string \<Rightarrow> bool" where
  "same_title a b = (lower a = lower b)"

text \<open>
  A string without the characters that \<open>LIKE\<close> reads specially (the two wildcards and the
  escape character), and one without the escape character.
\<close>

definition wildcard_free :: "string \<Rightarrow> bool" where
  "wildcard_free s = (CHR ''%'' \<notin> set s \<and> CHR ''_'' \<notin> set s \<and> CHR 0x5C \<notin> set s)"

definition escape_free :: "string \<Rightarrow> bool" where
  "escape_free s = (CHR 0x5C \<notin> set s)"

text \<open>
  An argument of \<open>add\<close> after the normalisation of the specification: trimmed, and the
  absent argument read as the empty string.
\<close>

definition trimmed :: "string option \<Rightarrow> string" where
  "trimmed v = (case v of None \<Rightarrow> [] | Some s \<Rightarrow> strip s)"


definition validation_error :: "result \<Rightarrow> bool" where
  "validation_error r =
     (r = RError ''Title is required'' \<or>
      r = RError ''Title must be 255 characters or less'' \<or>
      r = RError ''Description must be 1000 characters or less'')"


text \<open>The row that a successful \<open>add_task\<close> stores.\<close>

definition added_task :: "session \<Rightarrow> nat \<Rightarrow> string \<Rightarrow> string option \<Rightarrow> string option \<Rightarrow> task" where
  "added_task s now user_id title description =
     \<lparr>t_id = next_id s, t_user_id = user_id, t_title = trimmed title,
      t_description = (if trimmed description = [] then None else Some (trimmed description)),
      t_completed = False, t_created_at = now, t_updated_at = now\<rparr>"

text \<open>
  The tool named \<open>tool_name\<close>, run for \<open>owner\<close>: what the specification asks of the
  dispatch.  The parameters give the arguments of the tool other than the owner; an entry
  \<open>user_id\<close> among them is not read.  \<open>turn_as\<close> runs a list of calls in order and records,
  with each result, the parameters with the owner entered.
\<close>

definition tool_as :: "session \<Rightarrow> nat \<Rightarrow> string \<Rightarrow> string \<Rightarrow> params \<Rightarrow> result \<times> session" where
  "tool_as s now owner tool_name p =
     (if tool_name = ''add_task'' then
        (case p ''title'' of
           None \<Rightarrow> (RError (''Tool execution failed: '' @ str_exn (KeyError ''title'')), s)
         | Some title \<Rightarrow> add_task s now owner (Some title) (p ''description''))
      else if tool_name = ''list_tasks'' then
        (list_tasks s owner (case p ''status'' of None \<Rightarrow> ''all'' | Some v \<Rightarrow> v), s)
      else if tool_name = ''complete_task'' then
        complete_task s now owner (p ''task_id'') (p ''title'')
      else if tool_name = ''delete_task'' then
        delete_task s owner (p ''task_id'') (p ''title'')
      else if tool_name = ''update_task'' then
        update_task s now owner (p ''task_id'') (p ''old_title'') (p ''title'') (p ''description'')
      else (RError (''Unknown tool: '' @ tool_name), s))"

fun turn_as :: "session \<Rightarrow> nat \<Rightarrow> string \<Rightarrow> (string \<times> params) list
                 \<Rightarrow> tool_result list \<times> session" where
  "turn_as s now owner [] = ([], s)"
| "turn_as s now owner ((tool_name, p) # rest) =
     (let (r, s1) = tool_as s now owner tool_name p;
          (rs, s2) = turn_as s1 now owner rest
      in (\<lparr>call_name = tool_name, call_parameters = p(''user_id'' \<mapsto> owner), outputs = r\<rparr> # rs,
          s2))"

section \<open>Properties of sessions\<close>

text \<open>The rows of the other owners in a state of the store, and the rows of an owner.\<close>

definition others :: "string \<Rightarrow> db \<Rightarrow> task list" where
  "others user_id d = filter (\<lambda>t. t_user_id t \<noteq> user_id) (tasks d)"

definition owned_rows :: "string \<Rightarrow> session \<Rightarrow> task set" where
  "owned_rows user_id s = {t \<in> set (tasks (pending s)). t_user_id t = user_id}"

text \<open>Every task that a result shows is a row of the set \<open>R\<close> (or the part of one it prints).\<close>

fun result_within :: "task set \<Rightarrow> result \<Rightarrow> bool" where
  "result_within R (RError m) = True"
| "result_within R (RWarning i ttl d c) =
     (\<exists>t\<in>R. i = t_id t \<and> ttl = t_title t \<and> d = t_description t \<and> c = t_completed t)"
| "result_within R (RTask t) = (t \<in> R)"
| "result_within R (RList ts) = (set ts \<subseteq> R)"
| "result_within R (RMultiple cs) = (\<forall>c\<in>set cs. \<exists>t\<in>R. c = (t_id t, t_title t, t_completed t))"
| "result_within R (RDeleted i ttl) = (\<exists>t\<in>R. i = t_id t \<and> ttl = t_title t)"

text \<open>
  An operation run for \<open>user_id\<close> on session \<open>s\<close> with outcome \<open>out\<close> stays with its owner:
  the rows of the other owners, in the session's view and in the store, are afterwards
  what the view or the store held of them before (a commit carries the view into the
  store, a rollback the store into the view; nothing of theirs is made, changed or
  removed), and every task in the result is a row of \<open>user_id\<close> before or after the call.
\<close>

definition isolated :: "string \<Rightarrow> session \<Rightarrow> result \<times> session \<Rightarrow> bool" where
  "isolated user_id s out =
     ((others user_id (pending (snd out)) = others user_id (pending s) \<or>
       others user_id (pending (snd out)) = others user_id (stored s)) \<and>
      (others user_id (stored (snd out)) = others user_id (stored s) \<or>
       others user_id (stored (snd out)) = others user_id (pending s)) \<and>
      result_within (owned_rows user_id s \<union> owned_rows user_id (snd out)) (fst out))"

text \<open>
  Primary keys are unique, and the sequence is ahead of every key in use, in the session's
  view and in the store.
\<close>

definition wf_db :: "int \<Rightarrow> db \<Rightarrow> bool" where
  "wf_db n d = (distinct (map t_id (tasks d)) \<and> list_all (\<lambda>i. i < n) (map t_id (tasks d)))"

definition wf_session :: "session \<Rightarrow> bool" where
  "wf_session s = (wf_db (next_id s) (pending s) \<and> wf_db (next_id s) (stored s))"

text \<open>
  From session \<open>s\<close> to session \<open>s'\<close> nothing of another owner than \<open>user_id\<close> has changed:
  the property of \<open>isolated\<close> on sessions, together with the well-formedness that carries it
  through a sequence of calls.
\<close>

definition confined :: "string \<Rightarrow> session \<Rightarrow> session \<Rightarrow> bool" where
  "confined user_id s s' =
     (wf_session s' \<and>
      (others user_id (pending s') = others user_id (pending s) \<or>
       others user_id (pending s') = others user_id (stored s)) \<and>
      (others user_id (stored s') = others user_id (stored s) \<or>
       others user_id (stored s') = others user_id (pending s)))"

text \<open>Every call of a list, run in order for \<open>user_id\<close>, stays with its owner.\<close>

fun calls_isolated :: "string \<Rightarrow> session \<Rightarrow> nat \<Rightarrow> (string \<times> params) list \<Rightarrow> bool" where
  "calls_isolated user_id s now [] = True"
| "calls_isolated user_id s now ((tool_name, p) # rest) =
     (isolated user_id s (tool_as s now user_id tool_name p) \<and>
      calls_isolated user_id (snd (tool_as s now user_id tool_name p)) now rest)"


section \<open>Language models and example stores\<close>

text \<open>A model that writes a \<open>user_id\<close> of its own choosing (or none) into each tool call.\<close>

definition spoof :: "(string \<times> params \<Rightarrow> string option) \<Rightarrow> string \<times> params \<Rightarrow> string \<times> params" where
  "spoof f call = (fst call, (snd call)(''user_id'' := f call))"

text \<open>The language model \<open>co\<close>, with the tool calls of its first answer rewritten by \<open>spoof\<close>.\<close>

definition spoofing :: "(string \<times> params \<Rightarrow> string option) \<Rightarrow> cohere \<Rightarrow> cohere" where
  "spoofing f co =
     co\<lparr>chat := \<lambda>m h. map_option (\<lambda>r. r\<lparr>r_tool_calls := map (spoof f) (r_tool_calls r)\<rparr>)
                                   (chat co m h)\<rparr>"

text \<open>Language models with a fixed script: the tool calls of the first answer.\<close>

definition scripted :: "(string \<times> params) list \<Rightarrow> cohere" where
  "scripted calls =
     \<lparr>chat = (\<lambda>m h. Some \<lparr>r_text = ''ok'', r_tool_calls = calls\<rparr>),
      chat_tool_results = (\<lambda>m rs. Some \<lparr>r_text = ''done'', r_tool_calls = []\<rparr>)\<rparr>"


definition fails_second :: "(string \<times> params) list \<Rightarrow> cohere" where
  "fails_second calls =
     \<lparr>chat = (\<lambda>m h. Some \<lparr>r_text = ''ok'', r_tool_calls = calls\<rparr>),
      chat_tool_results = (\<lambda>m rs. None)\<rparr>"

text \<open>A fresh task row, and a session with nothing uncommitted on given task rows.\<close>

definition mk_task :: "int \<Rightarrow> string \<Rightarrow> string \<Rightarrow> task" where
  "mk_task i u ttl = \<lparr>t_id = i, t_user_id = u, t_title = ttl, t_description = None,
                      t_completed = False, t_created_at = 0, t_updated_at = 0\<rparr>"

definition clean_session :: "task list \<Rightarrow> int \<Rightarrow> session" where
  "clean_session ts n = \<lparr>stored = \<lparr>tasks = ts, conversations = [], messages = []\<rparr>,
                         pending = \<lparr>tasks = ts, conversations = [], messages = []\<rparr>,
                         next_id = n\<rparr>"

text \<open>Two owners with a task each, under the same title.\<close>

definition two_owners :: session where
  "two_owners = clean_session [mk_task 1 ''alice'' ''buy milk'', mk_task 2 ''bob'' ''buy milk''] 3"

text \<open>
  Tool calls in which the model names \<open>bob\<close> as the user; the conversation that a turn of
  \<open>alice\<close> without a conversation id creates on \<open>two_owners\<close> at time 9, and the session
  after it.
\<close>

definition foreign_calls :: "(string \<times> params) list" where
  "foreign_calls = [(''list_tasks'', [''user_id'' \<mapsto> ''bob'']),
                    (''delete_task'', [''user_id'' \<mapsto> ''bob'', ''title'' \<mapsto> ''milk''])]"

definition alice_conversation :: conversation where
  "alice_conversation = \<lparr>c_id = ''c'', c_user_id = ''alice'', c_created_at = 9, c_updated_at = 9\<rparr>"

definition alice_started :: session where
  "alice_started =
     (let d = \<lparr>tasks = [mk_task 1 ''alice'' ''buy milk'', mk_task 2 ''bob'' ''buy milk''],
               conversations = [alice_conversation], messages = []\<rparr>
      in \<lparr>stored = d, pending = d, next_id = 3\<rparr>)"

text \<open>
  A store with one task of \<open>u1\<close>, and a call of \<open>update_task\<close> on it with a good title and a
  description of 1001 characters.
\<close>

definition one_task :: session where
  "one_task = clean_session [mk_task 1 ''u1'' ''old title''] 2"

definition long_description :: string where
  "long_description = replicate 1001 (CHR ''d'')"

definition bad_update :: "string \<times> params" where
  "bad_update = (''update_task'', [''task_id'' \<mapsto> ''1'', ''title'' \<mapsto> ''new title'',
                                   ''description'' \<mapsto> long_description])"

definition a_request :: chat_request where
  "a_request = \<lparr>req_message = ''please'', req_conversation_id = None\<rparr>"





text \<open>Stores whose titles meet the wildcard \<open>_\<close>.\<close>

definition abc_only :: session where
  "abc_only = clean_session [mk_task 1 ''u1'' ''abc''] 2"

definition abc_then_a_c :: session where
  "abc_then_a_c = clean_session [mk_task 1 ''u1'' ''abc'', mk_task 2 ''u1'' ''a_c''] 3"

text \<open>A conversation \<open>c1\<close> of 51 messages, created at the times 1 to 51.\<close>

definition mk_message :: "nat \<Rightarrow> message" where
  "mk_message i = \<lparr>m_id = replicate i (CHR ''m''), m_conversation_id = ''c1'',
                   m_role = (if even i then ''assistant'' else ''user''),
                   m_content = replicate i (CHR ''x''), m_tool_calls = None,
                   m_created_at = i\<rparr>"

definition long_conversation :: session where
  "long_conversation =
     (let d = \<lparr>tasks = [],
               conversations = [\<lparr>c_id = ''c1'', c_user_id = ''u1'',
                                 c_created_at = 0, c_updated_at = 51\<rparr>],
               messages = map mk_message [1..<52]\<rparr>
      in \<lparr>stored = d, pending = d, next_id = 1\<rparr>)"

section \<open>Lemmas on the store\<close>

lemma find_SomeD: "find P xs = Some x \<Longrightarrow> P x \<and> x \<in> set xs"
  by (induction xs) (auto split: if_splits)

lemma same_key_same_row:
  "distinct (map t_id rows) \<Longrightarrow> r \<in> set rows \<Longrightarrow> t \<in> set rows \<Longrightarrow> t_id r = t_id t \<Longrightarrow> r = t"
  by (meson distinct_map inj_onD)

lemma filter_replace:
  "(\<And>r. r \<in> set rows \<Longrightarrow> k r = i \<Longrightarrow> \<not> P r) \<Longrightarrow> \<not> P t' \<Longrightarrow>
   filter P (map (\<lambda>r. if k r = i then t' else r) rows) = filter P rows"
  by (induction rows) auto

lemma find_by_id_owned:
  "find_by_id s u tid = Some t \<Longrightarrow> t \<in> owned_rows u s"
  by (auto simp: find_by_id_def owned_rows_def split: option.splits if_splits dest: find_SomeD)

lemma find_by_title_owned: "set (find_by_title s u ttl) \<subseteq> owned_rows u s"
  by (auto simp: find_by_title_def owned_rows_def)

lemma resolve_Resolved:
  "resolve_reference s u tid ttl = Resolved t \<Longrightarrow> t \<in> owned_rows u s"
proof -
  assume r: "resolve_reference s u tid ttl = Resolved t"
  show ?thesis
  proof (cases "find_by_id s u tid")
    case (Some t')
    with r show ?thesis by (simp add: resolve_reference_def find_by_id_owned)
  next
    case None
    with r obtain f where f: "ttl = Some f" "find_by_title s u f = [t]"
      by (auto simp: resolve_reference_def split: option.splits if_splits list.splits)
    then show ?thesis using find_by_title_owned [of s u f] by simp
  qed
qed

lemma resolve_Ambiguous:
  "resolve_reference s u tid ttl = Ambiguous ts \<Longrightarrow> set ts \<subseteq> owned_rows u s"
proof -
  assume r: "resolve_reference s u tid ttl = Ambiguous ts"
  then obtain f where f: "ttl = Some f" "find_by_title s u f = ts"
    by (auto simp: resolve_reference_def split: option.splits if_splits list.splits)
  then show ?thesis using find_by_title_owned [of s u f] by simp
qed

lemma key_owner:
  assumes "distinct (map t_id (tasks (pending s)))" "t \<in> owned_rows u s"
      "r \<in> set (tasks (pending s))" "t_id r = t_id t"
  shows "t_user_id r = u"
  using assms same_key_same_row [of "tasks (pending s)" r t]
  by (auto simp: owned_rows_def)

lemma others_update_row:
  assumes "distinct (map t_id (tasks (pending s)))" "t \<in> owned_rows u s"
      "t_id t' = t_id t" "t_user_id t' = u"
  shows "others u (pending (update_row s t')) = others u (pending s)"
  using assms key_owner [OF assms(1,2)]
  by (simp add: others_def update_row_def filter_replace)

lemma others_delete_row:
  assumes "distinct (map t_id (tasks (pending s)))" "t \<in> owned_rows u s"
  shows "others u (pending (delete_row s t)) = others u (pending s)"
  using key_owner [OF assms(1,2)]
  by (auto simp: others_def delete_row_def intro!: filter_cong)

lemma update_row_mem:
  "t \<in> set (tasks (pending s)) \<Longrightarrow> t_id t' = t_id t \<Longrightarrow>
   t' \<in> set (tasks (pending (update_row s t')))"
  by (force simp: update_row_def)

lemma update_row_keys:
  "map t_id (tasks (pending (update_row s t'))) = map t_id (tasks (pending s))"
  by (simp add: update_row_def o_def cong: map_cong)

lemma update_row_stored: "stored (update_row s t') = stored s"
  by (simp add: update_row_def)

lemma update_row_owned:
  "t \<in> owned_rows u s \<Longrightarrow> t_id t' = t_id t \<Longrightarrow> t_user_id t' = u \<Longrightarrow>
   t' \<in> owned_rows u (update_row s t')"
  using update_row_mem [of t s t'] by (simp add: owned_rows_def)

section \<open>Case folding, \<open>LIKE\<close> patterns and literal matching\<close>

lemma lower_char_unchanged: "c \<notin> set upper_case \<Longrightarrow> lower_char c = c"
proof -
  assume "c \<notin> set upper_case"
  then have "map_of (zip upper_case lower_case) c = None"
    by (auto simp: map_of_eq_None_iff dest: set_zip_leftD)
  then show ?thesis by (simp add: lower_char_def)
qed

lemma lower_char_range: "lower_char c = c \<or> lower_char c \<in> set lower_case"
proof (cases "map_of (zip upper_case lower_case) c")
  case None
  then show ?thesis by (simp add: lower_char_def)
next
  case (Some l)
  then have "(c, l) \<in> set (zip upper_case lower_case)" by (rule map_of_SomeD)
  then have "l \<in> set lower_case" by (rule set_zip_rightD)
  then show ?thesis using Some by (simp add: lower_char_def)
qed

lemma lower_case_fixed: "list_all (\<lambda>l. l \<notin> set upper_case) lower_case"
  by code_simp

lemma lower_char_idem: "lower_char (lower_char c) = lower_char c"
  using lower_char_range [of c] lower_case_fixed lower_char_unchanged [of "lower_char c"]
  by (auto simp: list_all_iff)

lemma lower_char_keeps:
  assumes "x \<notin> set upper_case" "x \<notin> set lower_case"
  shows "lower_char c = x \<longleftrightarrow> c = x"
  using assms lower_char_range [of c] lower_char_unchanged [of x] by auto

lemma specials:
  "list_all (\<lambda>x. x \<notin> set upper_case \<and> x \<notin> set lower_case)
     [CHR ''%'', CHR ''_'', CHR 0x5C, CHR 0x00]"
  by code_simp

lemma lower_char_pct: "lower_char c = CHR ''%'' \<longleftrightarrow> c = CHR ''%''"
  using specials by (intro lower_char_keeps) simp_all

lemma lower_char_us: "lower_char c = CHR ''_'' \<longleftrightarrow> c = CHR ''_''"
  using specials by (intro lower_char_keeps) simp_all

lemma lower_char_bs: "lower_char c = CHR 0x5C \<longleftrightarrow> c = CHR 0x5C"
  using specials by (intro lower_char_keeps) simp_all

lemma lower_char_nul: "lower_char c = CHR 0x00 \<longleftrightarrow> c = CHR 0x00"
  using specials by (intro lower_char_keeps) simp_all

lemma lower_idem: "lower (lower s) = lower s"
  by (simp add: lower_def lower_char_idem)

lemma lower_append: "lower (a @ b) = lower a @ lower b"
  by (simp add: lower_def)

lemma lower_Cons: "lower (c # s) = lower_char c # lower s"
  by (simp add: lower_def)

lemma lower_Nil: "lower [] = []"
  by (simp add: lower_def)

lemma lower_char_percent: "lower_char (CHR ''%'') = CHR ''%''"
  using lower_char_pct [of "CHR ''%''"] by simp

lemma mem_lower:
  assumes c: "\<And>x. lower_char x = c \<longleftrightarrow> x = c"
  shows "c \<in> set (lower s) \<longleftrightarrow> c \<in> set s"
proof -
  have "c = lower_char x \<longleftrightarrow> c = x" for x
    using c [of x] by auto
  then show ?thesis
    by (induction s) (simp_all add: lower_def)
qed

lemma wildcard_free_lower: "wildcard_free (lower s) = wildcard_free s"
  by (simp add: wildcard_free_def mem_lower lower_char_pct lower_char_us lower_char_bs)

lemma escape_free_lower: "escape_free (lower s) = escape_free s"
  by (simp add: escape_free_def mem_lower lower_char_bs)

lemma has_nul_lower: "has_nul (lower s) = has_nul s"
  by (simp add: has_nul_def mem_lower lower_char_nul)

lemma has_nul_Nil: "\<not> has_nul []"
  by (simp add: has_nul_def)

lemma dangling_escape_lower: "dangling_escape (lower s) = dangling_escape s"
  by (induction s rule: dangling_escape.induct)
     (simp_all add: lower_Cons lower_Nil lower_char_bs)

lemma escape_free_not_dangling: "escape_free s \<Longrightarrow> \<not> dangling_escape s"
  by (induction s rule: dangling_escape.induct) (simp_all add: escape_free_def)

lemma like_match_percent_skip: "like_match ps cs \<Longrightarrow> like_match (CHR ''%'' # ps) cs"
  by (cases cs) auto

lemma like_match_refl: "escape_free p \<Longrightarrow> like_match p p"
  by (induction p) (auto simp: like_match_percent_skip escape_free_def)

lemma like_match_literal:
  "wildcard_free p \<Longrightarrow> like_match p s \<longleftrightarrow> p = s"
proof (induction p arbitrary: s)
  case Nil
  then show ?case by (cases s) auto
next
  case (Cons a p)
  then show ?case by (cases s) (auto simp: wildcard_free_def)
qed

lemma like_match_percent:
  "like_match (CHR ''%'' # ps) s \<longleftrightarrow> (\<exists>k\<le>length s. like_match ps (drop k s))"
proof (induction s)
  case Nil
  then show ?case by simp
next
  case (Cons c cs)
  have "(\<exists>k\<le>length (c # cs). like_match ps (drop k (c # cs))) \<longleftrightarrow>
        like_match ps (c # cs) \<or> (\<exists>k\<le>length cs. like_match ps (drop k cs))"
  proof
    assume "\<exists>k\<le>length (c # cs). like_match ps (drop k (c # cs))"
    then obtain k where k: "k \<le> length (c # cs)" "like_match ps (drop k (c # cs))" by blast
    show "like_match ps (c # cs) \<or> (\<exists>k\<le>length cs. like_match ps (drop k cs))"
    proof (cases k)
      case 0
      then show ?thesis using k by simp
    next
      case (Suc j)
      then show ?thesis using k by auto
    qed
  next
    assume "like_match ps (c # cs) \<or> (\<exists>k\<le>length cs. like_match ps (drop k cs))"
    then show "\<exists>k\<le>length (c # cs). like_match ps (drop k (c # cs))"
    proof
      assume "like_match ps (c # cs)"
      then show ?thesis by (intro exI [of _ 0]) simp
    next
      assume "\<exists>k\<le>length cs. like_match ps (drop k cs)"
      then obtain k where "k \<le> length cs" "like_match ps (drop k cs)" by blast
      then show ?thesis by (intro exI [of _ "Suc k"]) simp
    qed
  qed
  then show ?case using Cons.IH by simp
qed

lemma like_match_prefix:
  "wildcard_free f \<Longrightarrow> like_match (f @ q) s \<longleftrightarrow> (\<exists>r. s = f @ r \<and> like_match q r)"
proof (induction f arbitrary: s)
  case Nil
  then show ?case by simp
next
  case (Cons a f)
  then have f: "wildcard_free f" and a: "a \<noteq> CHR ''%''" "a \<noteq> CHR ''_''" "a \<noteq> CHR 0x5C"
    by (auto simp: wildcard_free_def)
  show ?case
  proof (cases s)
    case Nil
    then show ?thesis using a by simp
  next
    case (Cons c cs)
    then show ?thesis using a Cons.IH [OF f, of cs] by auto
  qed
qed

lemma like_match_any: "like_match ''%'' s"
  by (induction s) auto

lemma like_match_contains:
  assumes "wildcard_free f"
  shows "like_match (''%'' @ f @ ''%'') s \<longleftrightarrow> sublist f s"
proof -
  have "like_match (''%'' @ f @ ''%'') s \<longleftrightarrow> (\<exists>k\<le>length s. \<exists>r. drop k s = f @ r)"
    using like_match_percent [of "f @ ''%''" s] like_match_prefix [OF assms, of "''%''"]
    by (simp add: like_match_any)
  also have "\<dots> \<longleftrightarrow> sublist f s"
  proof
    assume "\<exists>k\<le>length s. \<exists>r. drop k s = f @ r"
    then obtain k r where "drop k s = f @ r" by blast
    then have "s = take k s @ f @ r" by (metis append_take_drop_id)
    then show "sublist f s" unfolding sublist_def by blast
  next
    assume "sublist f s"
    then obtain ps ss where "s = ps @ f @ ss" unfolding sublist_def by blast
    then have "length ps \<le> length s \<and> drop (length ps) s = f @ ss" by simp
    then show "\<exists>k\<le>length s. \<exists>r. drop k s = f @ r" by blast
  qed
  finally show ?thesis .
qed

lemma ilike_fragment:
  "wildcard_free fragment \<Longrightarrow>
   ilike title (''%'' @ fragment @ ''%'') \<longleftrightarrow> substring_match fragment title"
  using like_match_contains [of "lower fragment" "lower title"]
  by (simp add: ilike_def substring_match_def lower_append lower_Cons lower_Nil lower_char_percent
        wildcard_free_lower)

lemma ilike_title:
  "wildcard_free new_title \<Longrightarrow> ilike title (lower new_title) \<longleftrightarrow> same_title title new_title"
  using like_match_literal [of "lower new_title" "lower title"]
  by (auto simp: ilike_def same_title_def lower_idem wildcard_free_lower)

lemma ilike_same_title:
  "escape_free new_title \<Longrightarrow> same_title title new_title \<Longrightarrow> ilike title (lower new_title)"
  using like_match_refl [of "lower new_title"]
  by (simp add: ilike_def same_title_def lower_idem escape_free_lower)

section \<open>The outcomes of \<open>add_task\<close>\<close>

lemma strip_Nil: "strip [] = []"
  by (simp add: strip_def)

lemma clean_trimmed: "truthy (clean v) \<longleftrightarrow> trimmed v \<noteq> []"
  by (cases v) (auto simp: clean_def truthy_def trimmed_def utf8_roundtrip_def strip_Nil)

lemma clean_the: "truthy (clean v) \<Longrightarrow> clean v = Some (trimmed v)"
  by (cases v) (auto simp: clean_def truthy_def trimmed_def utf8_roundtrip_def)

lemma clean_title_cases:
  "clean v = None \<and> trimmed v = [] \<or> clean v = Some (trimmed v)"
  by (cases v) (auto simp: clean_def truthy_def trimmed_def utf8_roundtrip_def strip_Nil)

lemma clean_description:
  "(if truthy (clean v) then clean v else None) =
   (if trimmed v = [] then None else Some (trimmed v))"
  using clean_trimmed [of v] clean_the [of v] by auto

lemma clean_description_length:
  "(truthy (clean v) \<and> length (the (clean v)) > 1000) \<longleftrightarrow> length (trimmed v) > 1000"
  using clean_trimmed [of v] clean_the [of v] by auto

text \<open>
  The outcomes of \<open>add_task\<close> in the order in which the code reaches them: the three
  validation errors, the refusal of the duplicate lookup by the store, the warning, the
  refusal of the insert, and the insert.
\<close>

lemma add_task_char:
  "add_task s now u title description =
     (if trimmed title = [] then (RError ''Title is required'', s)
      else if length (trimmed title) > 255 then
        (RError ''Title must be 255 characters or less'', s)
      else if length (trimmed description) > 1000 then
        (RError ''Description must be 1000 characters or less'', s)
      else if has_nul u \<or> has_nul (trimmed title) then
        (RError (''Failed to add task: '' @ nul_message), rollback s)
      else if dangling_escape (trimmed title) then
        (RError (''Failed to add task: '' @ escape_message), rollback s)
      else case find (\<lambda>t. t_user_id t = u \<and> ilike (t_title t) (lower (trimmed title)))
                     (tasks (pending s)) of
             Some e \<Rightarrow> (RWarning (t_id e) (t_title e) (t_description e) (t_completed e), s)
           | None \<Rightarrow>
               if has_nul (trimmed description) then
                 (RError (''Failed to add task: '' @ nul_message), rollback s)
               else
                 (RTask (added_task s now u title description),
                  commit (s\<lparr>pending := (pending s)
                                \<lparr>tasks := tasks (pending s) @ [added_task s now u title description]\<rparr>,
                             next_id := next_id s + 1\<rparr>)))"
proof -
  consider "clean title = None" "trimmed title = []" | "clean title = Some (trimmed title)"
    using clean_title_cases [of title] by auto
  then show ?thesis
  proof cases
    case 1
    then show ?thesis by (simp add: add_task_def add_task_body_def)
  next
    case 2
    then show ?thesis
      unfolding add_task_def add_task_body_def Let_def clean_description clean_description_length
      by (simp add: select_duplicate_def add_and_commit_def insert_task_def added_task_def Let_def
            has_nul_lower dangling_escape_lower has_nul_Nil split: option.splits)
  qed
qed

section \<open>Owner isolation of the five tools\<close>

lemma isolated_unchanged:
  "result_within (owned_rows u s) r \<Longrightarrow> isolated u s (r, s)"
  by (cases r) (auto simp: isolated_def)

lemma isolated_rollback: "isolated u s (RError m, rollback s)"
  by (simp add: isolated_def rollback_def)

lemma isolated_add_task: "isolated u s (add_task s now u ttl d)"
proof -
  let ?P = "\<lambda>t. t_user_id t = u \<and> ilike (t_title t) (lower (trimmed ttl))"
  have w: "isolated u s (RWarning (t_id e) (t_title e) (t_description e) (t_completed e), s)"
    if "find ?P (tasks (pending s)) = Some e" for e
    using find_SomeD [OF that] by (intro isolated_unchanged) (auto simp: owned_rows_def)
  have i: "isolated u s
             (RTask (added_task s now u ttl d),
              commit (s\<lparr>pending := (pending s)
                            \<lparr>tasks := tasks (pending s) @ [added_task s now u ttl d]\<rparr>,
                         next_id := next_id s + 1\<rparr>))"
    by (simp add: isolated_def commit_def others_def owned_rows_def added_task_def)
  show ?thesis
    unfolding add_task_char
    by (simp add: isolated_unchanged isolated_rollback w i split: option.splits)
qed

lemma isolated_list_tasks: "isolated u s (list_tasks s u st, s)"
  by (auto simp: isolated_def list_tasks_def owned_rows_def Let_def)

lemma isolated_complete_task:
  assumes "distinct (map t_id (tasks (pending s)))"
  shows "isolated u s (complete_task s now u tid ttl)"
proof (cases "resolve_reference s u tid ttl")
  case (Resolved t)
  then have t: "t \<in> owned_rows u s" by (rule resolve_Resolved)
  let ?t' = "t\<lparr>t_completed := True, t_updated_at := now\<rparr>"
  have o: "others u (pending (update_row s ?t')) = others u (pending s)"
    using assms t by (intro others_update_row [where t = t]) (simp_all add: owned_rows_def)
  have m: "?t' \<in> owned_rows u (update_row s ?t')"
    using t update_row_mem [of t s ?t'] by (simp add: owned_rows_def)
  show ?thesis using Resolved o m
    by (simp add: isolated_def complete_task_def Let_def commit_def owned_rows_def)
next
  case (Ambiguous ts)
  then have "set ts \<subseteq> owned_rows u s" by (rule resolve_Ambiguous)
  then show ?thesis using Ambiguous
    by (auto simp: isolated_def complete_task_def candidates_def)
next
  case NotFound
  then show ?thesis by (simp add: isolated_def complete_task_def)
qed

lemma isolated_delete_task:
  assumes "distinct (map t_id (tasks (pending s)))"
  shows "isolated u s (delete_task s u tid ttl)"
proof (cases "resolve_reference s u tid ttl")
  case (Resolved t)
  then have t: "t \<in> owned_rows u s" by (rule resolve_Resolved)
  have o: "others u (pending (delete_row s t)) = others u (pending s)"
    using assms t by (rule others_delete_row)
  show ?thesis using Resolved o t
    by (auto simp: isolated_def delete_task_def commit_def)
next
  case (Ambiguous ts)
  then have "set ts \<subseteq> owned_rows u s" by (rule resolve_Ambiguous)
  then show ?thesis using Ambiguous
    by (auto simp: isolated_def delete_task_def candidates_def)
next
  case NotFound
  then show ?thesis by (simp add: isolated_def delete_task_def)
qed

lemma isolated_update_task:
  assumes d: "distinct (map t_id (tasks (pending s)))"
  shows "isolated u s (update_task s now u tid old ttl descr)"
proof (cases "resolve_reference s u tid old")
  case (Resolved t)
  then have t: "t \<in> owned_rows u s" by (rule resolve_Resolved)
  then have tu: "t_user_id t = u" by (simp add: owned_rows_def)
  define t1 where "t1 = (case ttl of None \<Rightarrow> t | Some x \<Rightarrow> t\<lparr>t_title := strip x\<rparr>)"
  define s1 where "s1 = update_row s t1"
  have k1: "t_id t1 = t_id t" "t_user_id t1 = u"
    using tu by (simp_all add: t1_def split: option.splits)
  have o1: "others u (pending s1) = others u (pending s)"
    unfolding s1_def using d t k1 by (rule others_update_row)
  have d1: "distinct (map t_id (tasks (pending s1)))"
    using d by (simp add: s1_def update_row_keys)
  have m1: "t1 \<in> owned_rows u s1"
    unfolding s1_def using t k1 by (rule update_row_owned)
  have st1: "stored s1 = stored s" by (simp add: s1_def update_row_stored)
  have e: "isolated u s (RError m, s1)" for m
    by (simp add: isolated_def o1 st1)
  have f: "isolated u s (RTask t2, commit (update_row s1 t2))"
    if k2: "t_id t2 = t_id t1" "t_user_id t2 = u" for t2
  proof -
    have o2: "others u (pending (update_row s1 t2)) = others u (pending s)"
      using others_update_row [OF d1 m1 k2] o1 by simp
    have m2: "t2 \<in> owned_rows u (update_row s1 t2)"
      using m1 k2 by (rule update_row_owned)
    show ?thesis using o2 m2 by (simp add: isolated_def commit_def owned_rows_def)
  qed
  show ?thesis
    using Resolved e k1
    by (cases descr)
       (simp_all add: update_task_def Let_def isolated_unchanged t1_def [symmetric]
          s1_def [symmetric] f)
next
  case (Ambiguous ts)
  then have "set ts \<subseteq> owned_rows u s" by (rule resolve_Ambiguous)
  then have "result_within (owned_rows u s) (RMultiple (candidates ts))"
    by (auto simp: candidates_def)
  then show ?thesis using Ambiguous
    by (simp add: update_task_def isolated_unchanged)
next
  case NotFound
  then show ?thesis by (simp add: update_task_def isolated_unchanged)
qed

text \<open>
  Claim C1.  Each of the five tools, run for owner \<open>A\<close> on a store whose primary keys are
  unique, stays with \<open>A\<close>: every task it returns is a row of \<open>A\<close>, and no row of another
  owner is made, changed or removed, in the session and in what is committed (their rows
  are afterwards those of the session's view or of the store before the call: the commit
  of a tool carries the first into the store, the rollback of \<open>add_task\<close> the second into
  the view).  So \<open>list_tasks\<close> for \<open>A\<close> shows no task of a different owner \<open>B\<close>, and
  \<open>complete_task\<close>, \<open>delete_task\<close> and \<open>update_task\<close> for \<open>A\<close> neither resolve to nor
  change one.
\<close>

theorem owner_isolation:
  assumes "distinct (map t_id (tasks (pending s)))"
  shows "isolated A s (add_task s now A title description) \<and>
         isolated A s (list_tasks s A status, s) \<and>
         isolated A s (complete_task s now A task_id ttl) \<and>
         isolated A s (delete_task s A task_id ttl) \<and>
         isolated A s (update_task s now A task_id old_title title description)"
  using assms
  by (simp add: isolated_add_task isolated_list_tasks isolated_complete_task
        isolated_delete_task isolated_update_task)

theorem owner_isolation_witness:
  "distinct (map t_id (tasks (pending two_owners))) \<and>
   isolated ''alice'' two_owners (complete_task two_owners 9 ''alice'' None (Some ''milk'')) \<and>
   isolated ''alice'' two_owners (list_tasks two_owners ''alice'' ''all'', two_owners)"
proof -
  have d: "distinct (map t_id (tasks (pending two_owners)))"
    by (simp add: two_owners_def clean_session_def mk_task_def)
  show ?thesis
    using d owner_isolation [OF d, of "''alice''" 9 None None "''all''" None "Some ''milk''" None]
    by simp
qed

section \<open>The dispatcher returns an envelope\<close>

lemma status_of_cases:
  "status_of r \<in> {''success'', ''error'', ''warning'', ''multiple_matches''}"
  by (cases r) simp_all

text \<open>
  Claim C9.  For every tool name and every parameter dictionary \<open>execute_tool\<close> returns a
  result with one of the four statuses and raises nothing; a name outside the five tools
  gives the error result "Unknown tool: ..." and leaves the session as it was.
\<close>

theorem execute_tool_total:
  "(\<exists>r. fst (execute_tool session now tool_name parameters) = Inr r \<and>
        status_of r \<in> {''success'', ''error'', ''warning'', ''multiple_matches''}) \<and>
   (tool_name \<notin> {''add_task'', ''list_tasks'', ''complete_task'', ''delete_task'', ''update_task''}
      \<longrightarrow> execute_tool session now tool_name parameters
            = (Inr (RError (''Unknown tool: '' @ tool_name)), session))"
proof
  obtain x s where c: "call_tool session now tool_name parameters = (x, s)"
    by (cases "call_tool session now tool_name parameters")
  show "\<exists>r. fst (execute_tool session now tool_name parameters) = Inr r \<and>
        status_of r \<in> {''success'', ''error'', ''warning'', ''multiple_matches''}"
  proof (cases x)
    case (Inl e)
    then show ?thesis using c
      by (cases e) (simp_all add: execute_tool_def)
  next
    case (Inr r)
    then show ?thesis using c status_of_cases [of r]
      by (simp add: execute_tool_def)
  qed
next
  show "tool_name \<notin> {''add_task'', ''list_tasks'', ''complete_task'', ''delete_task'', ''update_task''}
      \<longrightarrow> execute_tool session now tool_name parameters
            = (Inr (RError (''Unknown tool: '' @ tool_name)), session)"
    by (simp add: execute_tool_def call_tool_def)
qed

theorem execute_tool_total_witness:
  "''drop_tasks'' \<notin> {''add_task'', ''list_tasks'', ''complete_task'', ''delete_task'', ''update_task''} \<and>
   execute_tool two_owners 0 ''drop_tasks'' Map.empty
     = (Inr (RError ''Unknown tool: drop_tasks''), two_owners)"
  using execute_tool_total [of two_owners 0 "''drop_tasks''" Map.empty]
  by simp

section \<open>The overwrite of \<open>user_id\<close> before dispatch\<close>

lemma wf_distinct: "wf_session s \<Longrightarrow> distinct (map t_id (tasks (pending s)))"
  by (simp add: wf_session_def wf_db_def)

lemma wf_update_row: "wf_session s \<Longrightarrow> wf_session (update_row s t)"
  unfolding wf_session_def wf_db_def update_row_keys by (simp add: update_row_def)

lemma wf_commit: "wf_session s \<Longrightarrow> wf_session (commit s)"
  by (simp add: wf_session_def commit_def)

lemma wf_rollback: "wf_session s \<Longrightarrow> wf_session (rollback s)"
  by (simp add: wf_session_def rollback_def)

lemma wf_delete_row: "wf_session s \<Longrightarrow> wf_session (delete_row s t)"
  by (auto simp: wf_session_def wf_db_def delete_row_def distinct_map_filter list_all_iff)

lemma wf_insert:
  "wf_session s \<Longrightarrow>
   wf_session (commit (s\<lparr>pending := (pending s)\<lparr>tasks := tasks (pending s) @ [t\<lparr>t_id := next_id s\<rparr>]\<rparr>,
                          next_id := next_id s + 1\<rparr>))"
  by (fastforce simp: wf_session_def wf_db_def list_all_iff commit_def)

lemma wf_add_task: "wf_session s \<Longrightarrow> wf_session (snd (add_task s now u ttl d))"
  using wf_insert [of s "added_task s now u ttl d"]
  by (simp add: add_task_char wf_rollback added_task_def split: option.splits)

lemma wf_complete_task: "wf_session s \<Longrightarrow> wf_session (snd (complete_task s now u tid ttl))"
  by (auto simp: complete_task_def Let_def wf_commit wf_update_row split: resolution.splits)

lemma wf_delete_task: "wf_session s \<Longrightarrow> wf_session (snd (delete_task s u tid ttl))"
  by (auto simp: delete_task_def Let_def wf_commit wf_delete_row split: resolution.splits)

lemma wf_update_task: "wf_session s \<Longrightarrow> wf_session (snd (update_task s now u tid old ttl d))"
  by (auto simp: update_task_def Let_def wf_commit wf_update_row split: resolution.splits)

lemma wf_tool_as: "wf_session s \<Longrightarrow> wf_session (snd (tool_as s now u n p))"
  by (simp add: tool_as_def wf_add_task wf_complete_task wf_delete_task wf_update_task
        split: option.splits)

lemma isolated_tool_as:
  assumes "wf_session s"
  shows "isolated u s (tool_as s now u n p)"
proof -
  note d = wf_distinct [OF assms]
  show ?thesis
    by (simp add: tool_as_def isolated_add_task isolated_list_tasks isolated_complete_task [OF d]
          isolated_delete_task [OF d] isolated_update_task [OF d] isolated_unchanged
          split: option.splits)
qed

lemma calls_isolated_wf: "wf_session s \<Longrightarrow> calls_isolated u s now calls"
proof (induction calls arbitrary: s)
  case Nil
  then show ?case by simp
next
  case (Cons call calls)
  obtain n p where call: "call = (n, p)" by (cases call)
  show ?case
    unfolding call using Cons.prems
    by (simp add: isolated_tool_as Cons.IH wf_tool_as)
qed

lemma confined_refl: "wf_session s \<Longrightarrow> confined u s s"
  by (simp add: confined_def)

lemma confined_trans: "confined u s s' \<Longrightarrow> confined u s' s'' \<Longrightarrow> confined u s s''"
  by (auto simp: confined_def)

lemma isolated_confined:
  "isolated u s out \<Longrightarrow> wf_session (snd out) \<Longrightarrow> confined u s (snd out)"
  by (simp add: isolated_def confined_def)

lemma turn_as_confined: "wf_session s \<Longrightarrow> confined u s (snd (turn_as s now u calls))"
proof (induction calls arbitrary: s)
  case Nil
  then show ?case by (simp add: confined_refl)
next
  case (Cons call calls)
  obtain n p where call: "call = (n, p)" by (cases call)
  have c1: "confined u s (snd (tool_as s now u n p))"
    using isolated_tool_as [OF Cons.prems] wf_tool_as [OF Cons.prems] by (rule isolated_confined)
  have c2: "confined u (snd (tool_as s now u n p))
              (snd (turn_as (snd (tool_as s now u n p)) now u calls))"
    using wf_tool_as [OF Cons.prems] by (rule Cons.IH)
  show ?case
    unfolding call using confined_trans [OF c1 c2]
    by (simp add: case_prod_beta)
qed

text \<open>
  The dispatcher on parameters whose \<open>user_id\<close> entry has been set to \<open>u\<close> is the named tool
  run for \<open>u\<close>, and the loop of the chat turn is \<open>turn_as\<close>.
\<close>

lemma execute_tool_as:
  "execute_tool s now n (p(''user_id'' \<mapsto> u))
     = (Inr (fst (tool_as s now u n p)), snd (tool_as s now u n p))"
  by (simp add: execute_tool_def call_tool_def tool_as_def subscript_def case_prod_beta
        split: option.splits)

lemma run_tool_calls_as:
  "run_tool_calls s now u calls = (Inr (fst (turn_as s now u calls)), snd (turn_as s now u calls))"
proof (induction calls arbitrary: s)
  case Nil
  then show ?case by simp
next
  case (Cons call calls)
  obtain n p where call: "call = (n, p)" by (cases call)
  show ?case
    unfolding call by (simp add: execute_tool_as Cons.IH case_prod_beta)
qed

lemma turn_as_owner:
  "list_all (\<lambda>tr. call_parameters tr ''user_id'' = Some u) (fst (turn_as s now u calls))"
proof (induction calls arbitrary: s)
  case Nil
  then show ?case by simp
next
  case (Cons call calls)
  obtain n p where call: "call = (n, p)" by (cases call)
  show ?case
    unfolding call using Cons.IH by (simp add: case_prod_beta)
qed

lemma run_tool_calls_spoof:
  "run_tool_calls s now u (map (spoof f) calls) = run_tool_calls s now u calls"
proof (induction calls arbitrary: s)
  case Nil
  then show ?case by simp
next
  case (Cons call calls)
  obtain n p where call: "call = (n, p)" by (cases call)
  have sp: "spoof f (n, p) = (n, p(''user_id'' := f (n, p)))"
    by (simp add: spoof_def)
  show ?case
    unfolding call by (simp add: sp Cons.IH cong: prod.case_cong sum.case_cong)
qed

text \<open>The chat turn once the conversation is at hand and the first model call has answered.\<close>

lemma chat_endpoint_steps:
  assumes g: "get_or_create_conversation s now u1 u (req_conversation_id req) = Some (conv, s1)"
      and c: "chat co (req_message req)
                (format_messages_for_cohere (fetch_history s1 (c_id conv))) = Some r"
  shows "chat_endpoint co s now u1 u2 u3 u u req =
           (if r_tool_calls r = [] then
              (Inr \<lparr>resp_message = r_text r, resp_tool_calls = [],
                    resp_conversation_id = c_id conv, resp_message_id = u3\<rparr>,
               close (store_messages s1 now u2 u3 conv (req_message req) (r_text r) []))
            else
              (case chat_tool_results co (req_message req)
                      (fst (turn_as s1 now u (r_tool_calls r))) of
                 None \<Rightarrow> (Inl internal_error, close (snd (turn_as s1 now u (r_tool_calls r))))
               | Some final \<Rightarrow>
                   (Inr \<lparr>resp_message = r_text final,
                         resp_tool_calls = fst (turn_as s1 now u (r_tool_calls r)),
                         resp_conversation_id = c_id conv, resp_message_id = u3\<rparr>,
                    close (store_messages (snd (turn_as s1 now u (r_tool_calls r))) now u2 u3 conv
                             (req_message req) (r_text final)
                             (fst (turn_as s1 now u (r_tool_calls r)))))))"
  by (simp add: chat_endpoint_def g c run_tool_calls_as Let_def split: option.splits)

lemma chat_endpoint_mismatch:
  "tok \<noteq> u \<Longrightarrow>
   chat_endpoint co s now u1 u2 u3 tok u req
     = (Inl (HTTPException 403 ''Access denied: user_id mismatch''), close s)"
  by (simp add: chat_endpoint_def)

lemma chat_endpoint_response:
  assumes g: "get_or_create_conversation s now u1 u (req_conversation_id req) = Some (conv, s1)"
      and c: "chat co (req_message req)
                (format_messages_for_cohere (fetch_history s1 (c_id conv))) = Some r"
      and r: "fst (chat_endpoint co s now u1 u2 u3 tok u req) = Inr resp"
  shows "u = tok \<and> resp_tool_calls resp = fst (turn_as s1 now tok (r_tool_calls r))"
proof -
  have t: "tok = u"
  proof (rule ccontr)
    assume "tok \<noteq> u"
    then show False using r by (simp add: chat_endpoint_mismatch)
  qed
  have "resp_tool_calls resp = fst (turn_as s1 now u (r_tool_calls r))"
    using r unfolding t chat_endpoint_steps [OF g c]
    by (auto split: if_splits option.splits)
  then show ?thesis by (simp add: t)
qed

lemma chat_endpoint_spoof:
  "chat_endpoint (spoofing f co) s now u1 u2 u3 tok u req = chat_endpoint co s now u1 u2 u3 tok u req"
proof (cases "get_or_create_conversation s now u1 u (req_conversation_id req)")
  case None
  then show ?thesis by (simp add: chat_endpoint_def)
next
  case (Some a)
  obtain conv s1 where a: "a = (conv, s1)" by (cases a)
  show ?thesis
  proof (cases "chat co (req_message req) (format_messages_for_cohere (fetch_history s1 (c_id conv)))")
    case None
    then show ?thesis using Some a by (simp add: chat_endpoint_def spoofing_def)
  next
    case r: (Some r)
    then show ?thesis using Some a
      by (simp add: chat_endpoint_def spoofing_def run_tool_calls_spoof
            cong: prod.case_cong sum.case_cong option.case_cong)
  qed
qed

lemma get_or_create_conversation_tasks:
  assumes "get_or_create_conversation s now uuid u cid = Some (conv, s1)"
  shows "tasks (pending s1) = tasks (pending s) \<and> next_id s1 = next_id s \<and>
         (tasks (stored s1) = tasks (stored s) \<or> tasks (stored s1) = tasks (pending s))"
  using assms
  by (auto simp: get_or_create_conversation_def Let_def commit_def
           split: if_splits option.splits)

lemma get_or_create_conversation_wf:
  assumes "wf_session s" "get_or_create_conversation s now uuid u cid = Some (conv, s1)"
  shows "wf_session s1"
  using assms(1) get_or_create_conversation_tasks [OF assms(2)]
  by (auto simp: wf_session_def wf_db_def)

lemma store_messages_tasks:
  "tasks (stored (store_messages s now a b conv m r trs)) = tasks (pending s)"
  by (simp add: store_messages_def Let_def commit_def)

lemma close_stored: "stored (close s) = stored s"
  by (simp add: close_def rollback_def)

lemma chat_endpoint_confined:
  assumes w: "wf_session s" and c: "others u (pending s) = others u (stored s)"
  shows "others u (stored (snd (chat_endpoint co s now u1 u2 u3 tok u req))) = others u (stored s)"
proof (cases "tok = u")
  case False
  then show ?thesis by (simp add: chat_endpoint_mismatch close_stored)
next
  case True
  show ?thesis
  proof (cases "get_or_create_conversation s now u1 u (req_conversation_id req)")
    case None
    then show ?thesis by (simp add: chat_endpoint_def close_stored)
  next
    case (Some a)
    obtain conv s1 where a: "a = (conv, s1)" by (cases a)
    note g = Some [unfolded a]
    note gt = get_or_create_conversation_tasks [OF g]
    have w1: "wf_session s1" using w g by (rule get_or_create_conversation_wf)
    have p1: "others u (pending s1) = others u (stored s)"
      using gt c by (simp add: others_def)
    have st1: "others u (stored s1) = others u (stored s)"
      using gt c by (auto simp: others_def)
    show ?thesis
    proof (cases "chat co (req_message req) (format_messages_for_cohere (fetch_history s1 (c_id conv)))")
      case None
      then show ?thesis using g st1 by (simp add: chat_endpoint_def close_stored)
    next
      case r: (Some r)
      let ?s2 = "snd (turn_as s1 now u (r_tool_calls r))"
      have "confined u s1 ?s2" using w1 by (rule turn_as_confined)
      then have p2: "others u (pending ?s2) = others u (stored s)"
        and st2: "others u (stored ?s2) = others u (stored s)"
        using p1 st1 by (auto simp: confined_def)
      have sm: "others u (stored (store_messages s' now u2 u3 conv m t trs)) = others u (pending s')"
        for s' m t trs
        by (simp add: others_def store_messages_tasks)
      show ?thesis
        unfolding True chat_endpoint_steps [OF g r]
        using p1 p2 st2
        by (simp add: close_stored sm split: option.splits)
    qed
  qed
qed

text \<open>
  Claim C2.  The loop of the chat turn is \<open>turn_as\<close> for the user id of the route: each
  call runs the named tool with that user id as its owner and records it in the
  parameters, and no \<open>user_id\<close> entry written by the model is read.  So whatever \<open>user_id\<close>
  the model writes into its calls (any value, or none: the function \<open>f\<close>), the loop and
  the whole turn have the same outcome.  The endpoint answers 403 unless the user id of
  the route is the authenticated identity; hence the tool calls that a response shows
  are the model's calls run for the authenticated identity.  On a well-formed store every
  call of the loop stays with that owner: its result shows only rows of the owner, and
  the rows of the other owners are not changed; a turn on a fresh session leaves their
  committed rows as they were.
\<close>

theorem user_id_overwrite:
  "run_tool_calls s now user_id calls
     = (Inr (fst (turn_as s now user_id calls)), snd (turn_as s now user_id calls)) \<and>
   list_all (\<lambda>tr. call_parameters tr ''user_id'' = Some user_id)
            (fst (turn_as s now user_id calls)) \<and>
   run_tool_calls s now user_id (map (spoof f) calls) = run_tool_calls s now user_id calls \<and>
   chat_endpoint (spoofing f co) s now u1 u2 u3 token_user_id user_id request
     = chat_endpoint co s now u1 u2 u3 token_user_id user_id request \<and>
   (token_user_id \<noteq> user_id \<longrightarrow>
      chat_endpoint co s now u1 u2 u3 token_user_id user_id request
        = (Inl (HTTPException 403 ''Access denied: user_id mismatch''), close s)) \<and>
   (get_or_create_conversation s now u1 user_id (req_conversation_id request) = Some (conv, s1) \<and>
    chat co (req_message request) (format_messages_for_cohere (fetch_history s1 (c_id conv)))
      = Some r \<and>
    fst (chat_endpoint co s now u1 u2 u3 token_user_id user_id request) = Inr resp \<longrightarrow>
      user_id = token_user_id \<and>
      resp_tool_calls resp = fst (turn_as s1 now token_user_id (r_tool_calls r))) \<and>
   (wf_session s \<longrightarrow> calls_isolated user_id s now calls) \<and>
   (wf_session s \<and>
    get_or_create_conversation s now u1 user_id (req_conversation_id request) = Some (conv, s1)
      \<longrightarrow> calls_isolated token_user_id s1 now (r_tool_calls r)) \<and>
   (wf_session s \<and> others user_id (pending s) = others user_id (stored s) \<longrightarrow>
      others user_id
        (stored (snd (chat_endpoint co s now u1 u2 u3 token_user_id user_id request)))
      = others user_id (stored s))"
proof (intro conjI impI)
  show "run_tool_calls s now user_id calls
     = (Inr (fst (turn_as s now user_id calls)), snd (turn_as s now user_id calls))"
    by (rule run_tool_calls_as)
  show "list_all (\<lambda>tr. call_parameters tr ''user_id'' = Some user_id)
            (fst (turn_as s now user_id calls))"
    by (rule turn_as_owner)
  show "run_tool_calls s now user_id (map (spoof f) calls) = run_tool_calls s now user_id calls"
    by (rule run_tool_calls_spoof)
  show "chat_endpoint (spoofing f co) s now u1 u2 u3 token_user_id user_id request
     = chat_endpoint co s now u1 u2 u3 token_user_id user_id request"
    by (rule chat_endpoint_spoof)
  show "chat_endpoint co s now u1 u2 u3 token_user_id user_id request
        = (Inl (HTTPException 403 ''Access denied: user_id mismatch''), close s)"
    if "token_user_id \<noteq> user_id"
    using that by (rule chat_endpoint_mismatch)
  show "user_id = token_user_id"
    if "get_or_create_conversation s now u1 user_id (req_conversation_id request) = Some (conv, s1) \<and>
        chat co (req_message request) (format_messages_for_cohere (fetch_history s1 (c_id conv)))
          = Some r \<and>
        fst (chat_endpoint co s now u1 u2 u3 token_user_id user_id request) = Inr resp"
    using that chat_endpoint_response [of s now u1 user_id request conv s1 co r u2 u3 token_user_id resp]
    by blast
  show "resp_tool_calls resp = fst (turn_as s1 now token_user_id (r_tool_calls r))"
    if "get_or_create_conversation s now u1 user_id (req_conversation_id request) = Some (conv, s1) \<and>
        chat co (req_message request) (format_messages_for_cohere (fetch_history s1 (c_id conv)))
          = Some r \<and>
        fst (chat_endpoint co s now u1 u2 u3 token_user_id user_id request) = Inr resp"
    using that chat_endpoint_response [of s now u1 user_id request conv s1 co r u2 u3 token_user_id resp]
    by blast
  show "calls_isolated user_id s now calls" if "wf_session s"
    using that by (rule calls_isolated_wf)
  show "calls_isolated token_user_id s1 now (r_tool_calls r)"
    if "wf_session s \<and>
        get_or_create_conversation s now u1 user_id (req_conversation_id request) = Some (conv, s1)"
    using that get_or_create_conversation_wf calls_isolated_wf by blast
  show "others user_id
        (stored (snd (chat_endpoint co s now u1 u2 u3 token_user_id user_id request)))
      = others user_id (stored s)"
    if "wf_session s \<and> others user_id (pending s) = others user_id (stored s)"
    using that chat_endpoint_confined by blast
qed

theorem user_id_overwrite_witness:
  "''mallory'' \<noteq> ''alice'' \<and>
   fst (chat_endpoint (scripted foreign_calls) two_owners 9 ''c'' ''m1'' ''m2''
          ''mallory'' ''alice'' a_request)
     = Inl (HTTPException 403 ''Access denied: user_id mismatch'') \<and>
   wf_session two_owners \<and>
   others ''alice'' (pending two_owners) = others ''alice'' (stored two_owners) \<and>
   get_or_create_conversation two_owners 9 ''c'' ''alice'' (req_conversation_id a_request)
     = Some (alice_conversation, alice_started) \<and>
   chat (scripted foreign_calls) (req_message a_request)
     (format_messages_for_cohere (fetch_history alice_started (c_id alice_conversation)))
     = Some \<lparr>r_text = ''ok'', r_tool_calls = foreign_calls\<rparr> \<and>
   \<not> isl (fst (chat_endpoint (scripted foreign_calls) two_owners 9 ''c'' ''m1'' ''m2''
                  ''alice'' ''alice'' a_request)) \<and>
   resp_tool_calls (projr (fst (chat_endpoint (scripted foreign_calls) two_owners 9
                                  ''c'' ''m1'' ''m2'' ''alice'' ''alice'' a_request)))
     = fst (turn_as alice_started 9 ''alice'' foreign_calls) \<and>
   calls_isolated ''alice'' alice_started 9 foreign_calls \<and>
   map outputs (fst (turn_as alice_started 9 ''alice'' foreign_calls))
     = [RList [mk_task 1 ''alice'' ''buy milk''], RDeleted 1 ''buy milk''] \<and>
   map outputs (projr (fst (run_tool_calls alice_started 9 ''alice'' foreign_calls)))
     = [RList [mk_task 1 ''alice'' ''buy milk''], RDeleted 1 ''buy milk''] \<and>
   map (\<lambda>tr. call_parameters tr ''user_id'')
       (resp_tool_calls (projr (fst (chat_endpoint (scripted foreign_calls) two_owners 9
                                       ''c'' ''m1'' ''m2'' ''alice'' ''alice'' a_request))))
     = [Some ''alice'', Some ''alice''] \<and>
   others ''alice''
     (stored (snd (chat_endpoint (scripted foreign_calls) two_owners 9
                     ''c'' ''m1'' ''m2'' ''alice'' ''alice'' a_request)))
     = [mk_task 2 ''bob'' ''buy milk''] \<and>
   tasks (stored (snd (chat_endpoint (scripted foreign_calls) two_owners 9
                         ''c'' ''m1'' ''m2'' ''alice'' ''alice'' a_request)))
     = [mk_task 2 ''bob'' ''buy milk'']"
proof -
  let ?out = "chat_endpoint (scripted foreign_calls) two_owners 9 ''c'' ''m1'' ''m2''
                ''alice'' ''alice'' a_request"
  let ?r = "\<lparr>r_text = ''ok'', r_tool_calls = foreign_calls\<rparr>"
  have h: "wf_session two_owners \<and>
           others ''alice'' (pending two_owners) = others ''alice'' (stored two_owners)"
    by (simp add: wf_session_def wf_db_def two_owners_def clean_session_def mk_task_def others_def)
  have m: "''mallory'' \<noteq> ''alice''" by simp
  have g: "get_or_create_conversation two_owners 9 ''c'' ''alice'' (req_conversation_id a_request)
             = Some (alice_conversation, alice_started)"
    by (simp add: get_or_create_conversation_def a_request_def truthy_def two_owners_def
          clean_session_def commit_def Let_def alice_conversation_def alice_started_def)
  have c: "chat (scripted foreign_calls) (req_message a_request)
             (format_messages_for_cohere (fetch_history alice_started (c_id alice_conversation)))
             = Some ?r"
    by (simp add: scripted_def)
  have i: "\<not> isl (fst ?out)"
    by code_simp
  then have r: "fst ?out = Inr (projr (fst ?out))"
    by (cases "fst ?out") simp_all
  have o: "others ''alice'' (stored two_owners) = [mk_task 2 ''bob'' ''buy milk'']"
    by (simp add: two_owners_def clean_session_def mk_task_def others_def)
  have v1: "map outputs (fst (turn_as alice_started 9 ''alice'' foreign_calls))
              = [RList [mk_task 1 ''alice'' ''buy milk''], RDeleted 1 ''buy milk'']"
    by code_simp
  have v4: "tasks (stored (snd ?out)) = [mk_task 2 ''bob'' ''buy milk'']"
    by code_simp
  note a = user_id_overwrite [where s = two_owners and now = 9 and user_id = "''alice''"
      and token_user_id = "''mallory''" and co = "scripted foreign_calls" and ?u1.0 = "''c''"
      and ?u2.0 = "''m1''" and ?u3.0 = "''m2''" and request = a_request]
  note b = user_id_overwrite [where s = two_owners and now = 9 and user_id = "''alice''"
      and token_user_id = "''alice''" and co = "scripted foreign_calls" and ?u1.0 = "''c''"
      and ?u2.0 = "''m1''" and ?u3.0 = "''m2''" and request = a_request
      and conv = alice_conversation and ?s1.0 = alice_started and r = ?r
      and resp = "projr (fst ?out)"]
  note e = user_id_overwrite [where s = alice_started and now = 9 and user_id = "''alice''"
      and calls = foreign_calls]
  have a1: "fst (chat_endpoint (scripted foreign_calls) two_owners 9 ''c'' ''m1'' ''m2''
                   ''mallory'' ''alice'' a_request)
              = Inl (HTTPException 403 ''Access denied: user_id mismatch'')"
    using a m by simp
  have b1: "resp_tool_calls (projr (fst ?out)) = fst (turn_as alice_started 9 ''alice'' foreign_calls)"
    using b g c r by simp
  have b2: "calls_isolated ''alice'' alice_started 9 foreign_calls"
    using b h g by simp
  have b3: "others ''alice'' (stored (snd ?out)) = [mk_task 2 ''bob'' ''buy milk'']"
    using b h o by simp
  have e1: "run_tool_calls alice_started 9 ''alice'' foreign_calls
              = (Inr (fst (turn_as alice_started 9 ''alice'' foreign_calls)),
                 snd (turn_as alice_started 9 ''alice'' foreign_calls))"
    using e by blast
  have e2: "list_all (\<lambda>tr. call_parameters tr ''user_id'' = Some ''alice'')
              (fst (turn_as alice_started 9 ''alice'' foreign_calls))"
    using e by blast
  have l: "length (fst (turn_as alice_started 9 ''alice'' foreign_calls)) = 2"
    using v1 [THEN arg_cong, of length] by simp
  have e3: "map (\<lambda>tr. call_parameters tr ''user_id'')
              (fst (turn_as alice_started 9 ''alice'' foreign_calls))
              = [Some ''alice'', Some ''alice'']"
    using e2 l by (auto simp: list_all_iff length_Suc_conv numeral_2_eq_2)
  show ?thesis
    using h m g c i a1 b2 b3 v1 v4
    by (simp add: b1 e1 e3)
qed

section \<open>Validation in \<open>add_task\<close>\<close>




section \<open>A failed turn and what it leaves in the store\<close>












lemma store_messages_clean:
  "pending (store_messages s now a b conv m r trs) = stored (store_messages s now a b conv m r trs)"
  by (simp add: store_messages_def Let_def commit_def)







text \<open>
  A turn whose second model call fails after \<open>update_task\<close> has returned its description
  error: the title that the call left uncommitted does not reach the store.  The same
  calls in a turn that succeeds store it.
\<close>

lemma failed_turn_discards_pending_title:
  "map t_title (tasks (stored (snd (chat_endpoint (fails_second [bad_update]) one_task 5
                                      ''c'' ''m1'' ''m2'' ''u1'' ''u1'' a_request))))
     = [''old title''] \<and>
   map t_title (tasks (stored (snd (chat_endpoint (scripted [bad_update]) one_task 5
                                      ''c'' ''m1'' ''m2'' ''u1'' ''u1'' a_request))))
     = [''new title'']"
  by code_simp

section \<open>Resolution by title fragment\<close>

text \<open>
  With a fragment free of wildcards and of the escape character the lookup is the
  substring match of the specification, and the three outcomes are the ones it describes.
\<close>

lemma find_by_title_literal:
  "wildcard_free fragment \<Longrightarrow>
   find_by_title s u fragment =
   filter (\<lambda>t. t_user_id t = u \<and> substring_match fragment (t_title t)) (tasks (pending s))"
  using ilike_fragment [of fragment] by (simp add: find_by_title_def)

lemma resolve_by_fragment:
  assumes "wildcard_free fragment" "fragment \<noteq> []"
  shows "resolve_reference s u None (Some fragment) =
           (case filter (\<lambda>t. t_user_id t = u \<and> substring_match fragment (t_title t))
                        (tasks (pending s)) of
              [] \<Rightarrow> NotFound
            | [t] \<Rightarrow> Resolved t
            | found \<Rightarrow> Ambiguous found)"
  using assms
  by (simp add: resolve_reference_def find_by_id_def find_by_title_literal)

lemma complete_by_fragment:
  assumes "wildcard_free fragment" "fragment \<noteq> []"
  shows "fst (complete_task s now u None (Some fragment)) =
           (case filter (\<lambda>t. t_user_id t = u \<and> substring_match fragment (t_title t))
                        (tasks (pending s)) of
              [] \<Rightarrow> RError ''Task not found for this user''
            | [t] \<Rightarrow> RTask (t\<lparr>t_completed := True, t_updated_at := now\<rparr>)
            | found \<Rightarrow> RMultiple (candidates found))"
  using assms
  by (simp add: complete_task_def resolve_by_fragment truthy_def Let_def split: list.splits)

lemma delete_by_fragment:
  assumes "wildcard_free fragment" "fragment \<noteq> []"
  shows "fst (delete_task s u None (Some fragment)) =
           (case filter (\<lambda>t. t_user_id t = u \<and> substring_match fragment (t_title t))
                        (tasks (pending s)) of
              [] \<Rightarrow> RError ''Task not found for this user''
            | [t] \<Rightarrow> RDeleted (t_id t) (t_title t)
            | found \<Rightarrow> RMultiple (candidates found))"
  using assms
  by (simp add: delete_task_def resolve_by_fragment truthy_def split: list.splits)

text \<open>
  Claim C6.  With the fragment \<open>a_c\<close> the claim and the code part: no title of \<open>u1\<close>
  contains the fragment, so the claim gives "not found"; \<open>complete_task\<close> resolves the task
  \<open>abc\<close> through the wildcard \<open>_\<close> and completes it.
\<close>

theorem fragment_wildcard_resolves:
  "filter (\<lambda>t. t_user_id t = ''u1'' \<and> substring_match ''a_c'' (t_title t))
          (tasks (pending abc_only)) = [] \<and>
   fst (complete_task abc_only 5 ''u1'' None (Some ''a_c''))
     = RTask ((mk_task 1 ''u1'' ''abc'')\<lparr>t_completed := True, t_updated_at := 5\<rparr>) \<and>
   map t_completed (tasks (stored (snd (complete_task abc_only 5 ''u1'' None (Some ''a_c'')))))
     = [True]"
  by code_simp

section \<open>The duplicate guard of \<open>add_task\<close>\<close>

text \<open>
  A valid title that the store accepts and that equals, case-insensitively, the title of
  a task of the owner is never inserted when it holds no escape character: the result is
  the warning, the session is untouched, and the warning shows a task of the owner; when
  the title is free of wildcards that task has the same title.
\<close>

lemma add_task_duplicate:
  assumes valid: "trimmed title \<noteq> []" "length (trimmed title) \<le> 255"
                 "length (trimmed description) \<le> 1000"
      and acc: "\<not> has_nul u" "\<not> has_nul (trimmed title)" "escape_free (trimmed title)"
      and ex: "e \<in> set (tasks (pending s))" "t_user_id e = u"
              "same_title (t_title e) (trimmed title)"
  shows "\<exists>d. add_task s now u title description
               = (RWarning (t_id d) (t_title d) (t_description d) (t_completed d), s) \<and>
             d \<in> set (tasks (pending s)) \<and> t_user_id d = u \<and>
             (wildcard_free (trimmed title) \<longrightarrow> same_title (t_title d) (trimmed title))"
proof -
  let ?P = "\<lambda>t. t_user_id t = u \<and> ilike (t_title t) (lower (trimmed title))"
  have "?P e" using ex acc by (simp add: ilike_same_title)
  then have "find ?P (tasks (pending s)) \<noteq> None"
    using ex(1) by (auto simp: find_None_iff)
  then obtain d where d: "find ?P (tasks (pending s)) = Some d" by auto
  then have p: "?P d \<and> d \<in> set (tasks (pending s))" by (rule find_SomeD)
  then have "wildcard_free (trimmed title) \<longrightarrow> same_title (t_title d) (trimmed title)"
    using ilike_title [of "trimmed title" "t_title d"] by blast
  then show ?thesis
    using valid acc d p escape_free_not_dangling [of "trimmed title"]
    by (intro exI [of _ d]) (simp add: add_task_char)
qed

text \<open>
  With an escape character in the title the guard can miss the identical title: the
  pattern \<open>a\b\<close> stands for the text \<open>ab\<close>, so the title \<open>a\b\<close> is stored a second time.
\<close>

lemma escaped_title_inserted_twice:
  "map t_title
     (tasks (stored (snd (add_task
                            (snd (add_task one_task 5 ''u1'' (Some [CHR ''a'', CHR 0x5C, CHR ''b'']) None))
                            6 ''u1'' (Some [CHR ''a'', CHR 0x5C, CHR ''b'']) None))))
     = [''old title'', [CHR ''a'', CHR 0x5C, CHR ''b''], [CHR ''a'', CHR 0x5C, CHR ''b'']]"
  by code_simp

text \<open>
  Claim C7.  The owner \<open>u1\<close> has the tasks \<open>abc\<close> (id 1) and \<open>a_c\<close> (id 2).  Adding \<open>a_c\<close>
  again inserts nothing and gives the warning, but the warning carries the task \<open>abc\<close>, which
  the pattern \<open>a_c\<close> also matches and which comes first, not the task with the same title.
\<close>

theorem duplicate_reports_other_task:
  "same_title (t_title (mk_task 2 ''u1'' ''a_c'')) ''a_c'' \<and>
   \<not> same_title (t_title (mk_task 1 ''u1'' ''abc'')) ''a_c'' \<and>
   tasks (pending abc_then_a_c) = [mk_task 1 ''u1'' ''abc'', mk_task 2 ''u1'' ''a_c''] \<and>
   fst (add_task abc_then_a_c 5 ''u1'' (Some ''a_c'') None) = RWarning 1 ''abc'' None False \<and>
   tasks (stored (snd (add_task abc_then_a_c 5 ''u1'' (Some ''a_c'') None)))
     = [mk_task 1 ''u1'' ''abc'', mk_task 2 ''u1'' ''a_c'']"
  by code_simp

section \<open>Error results and the state of the store\<close>

text \<open>
  An error result of \<open>complete_task\<close> or \<open>delete_task\<close> leaves the session as it was, and so
  does a validation error of \<open>add_task\<close>; an error result of \<open>add_task\<close> or \<open>update_task\<close>
  leaves the committed rows as they were.
\<close>

lemma add_task_invalid_unchanged:
  "validation_error (fst (add_task s now u title description)) \<Longrightarrow>
   snd (add_task s now u title description) = s"
  by (auto simp: add_task_char validation_error_def split: if_splits option.splits)

lemma add_task_error_stored:
  "status_of (fst (add_task s now u title description)) = ''error'' \<Longrightarrow>
   stored (snd (add_task s now u title description)) = stored s"
  by (auto simp: add_task_char rollback_def split: if_splits option.splits)

lemma complete_task_error_unchanged:
  "status_of (fst (complete_task s now u tid ttl)) = ''error'' \<Longrightarrow>
   snd (complete_task s now u tid ttl) = s"
  by (auto simp: complete_task_def Let_def split: if_splits resolution.splits)

lemma delete_task_error_unchanged:
  "status_of (fst (delete_task s u tid ttl)) = ''error'' \<Longrightarrow>
   snd (delete_task s u tid ttl) = s"
  by (auto simp: delete_task_def split: if_splits resolution.splits)

lemma update_task_error_stored:
  "status_of (fst (update_task s now u tid old ttl d)) = ''error'' \<Longrightarrow>
   stored (snd (update_task s now u tid old ttl d)) = stored s"
  by (auto simp: update_task_def Let_def update_row_stored split: if_splits resolution.splits)

text \<open>
  Claim C3.  The call of \<open>update_task\<close> with a good title and a description of 1001
  characters returns an error, and the session that comes back holds the new title as an
  uncommitted change: \<open>list_tasks\<close> in the same turn shows it, and the commit that ends the
  chat turn stores it.
\<close>

theorem update_task_partial_update:
  "status_of (fst (update_task one_task 5 ''u1'' (Some ''1'') None (Some ''new title'')
                     (Some long_description))) = ''error'' \<and>
   list_tasks (snd (update_task one_task 5 ''u1'' (Some ''1'') None (Some ''new title'')
                      (Some long_description))) ''u1'' ''all''
     = RList [(mk_task 1 ''u1'' ''old title'')\<lparr>t_title := ''new title''\<rparr>] \<and>
   map (status_of \<circ> outputs)
       (resp_tool_calls (projr (fst (chat_endpoint (scripted [bad_update]) one_task 5
                                       ''c'' ''m1'' ''m2'' ''u1'' ''u1'' a_request))))
     = [''error''] \<and>
   map t_title (tasks (stored one_task)) = [''old title''] \<and>
   map t_title (tasks (stored (snd (chat_endpoint (scripted [bad_update]) one_task 5
                                      ''c'' ''m1'' ''m2'' ''u1'' ''u1'' a_request))))
     = [''new title'']"
  by code_simp

section \<open>The history window\<close>

text \<open>
  When the messages of a conversation lie in the table in the order of their creation
  times and are more than 50, the history fetched is the first 50 of them, and the newest
  message is not in it.
\<close>

lemma fetch_history_oldest:
  assumes "sorted_wrt (<) (map m_created_at (filter (\<lambda>m. m_conversation_id m = c) (messages (pending s))))"
      and "length (filter (\<lambda>m. m_conversation_id m = c) (messages (pending s))) > 50"
  shows "fetch_history s c = take 50 (filter (\<lambda>m. m_conversation_id m = c) (messages (pending s))) \<and>
         last (filter (\<lambda>m. m_conversation_id m = c) (messages (pending s))) \<notin> set (fetch_history s c)"
proof -
  let ?ms = "filter (\<lambda>m. m_conversation_id m = c) (messages (pending s))"
  have st: "sorted_wrt (<) (map m_created_at ?ms)" by (rule assms(1))
  then have "sorted (map m_created_at ?ms)"
    by (rule sorted_wrt_mono_rel [rotated]) simp
  then have sk: "sort_key m_created_at ?ms = ?ms"
    by (rule sort_key_id_if_sorted)
  have d: "distinct ?ms"
    using st strict_sorted_iff distinct_map by (metis (no_types, lifting))
  have ne: "?ms \<noteq> []" using assms(2) by auto
  have "last ?ms \<notin> set (take 50 ?ms)"
  proof
    assume "last ?ms \<in> set (take 50 ?ms)"
    then obtain i where i: "i < length (take 50 ?ms)" "take 50 ?ms ! i = last ?ms"
      by (auto simp: in_set_conv_nth)
    then have "i < 50" "?ms ! i = ?ms ! (length ?ms - 1)"
      using ne by (simp_all add: last_conv_nth)
    then show False
      using d assms(2) by (simp add: nth_eq_iff_index_eq)
  qed
  then show ?thesis by (simp add: fetch_history_def sk)
qed

text \<open>
  Claim C5.  For the conversation \<open>c1\<close> with its 51 messages the transcript handed to the
  model is made of the messages created at the times 1 to 50, oldest first: the 50 oldest.
  The newest message, created at time 51, is left out; the 50 most recent are those of
  the times 2 to 51.
\<close>

theorem history_window_oldest_fifty:
  "length (filter (\<lambda>m. m_conversation_id m = ''c1'') (messages (pending long_conversation))) = 51 \<and>
   map m_created_at (fetch_history long_conversation ''c1'') = [1..<51] \<and>
   map snd (format_messages_for_cohere (fetch_history long_conversation ''c1''))
     = map (\<lambda>i. replicate i (CHR ''x'')) [1..<51] \<and>
   51 \<notin> set (map m_created_at (fetch_history long_conversation ''c1''))"
  by code_simp

section \<open>Wildcards in titles and fragments\<close>

lemma leak_add:
  "\<not> same_title (t_title (mk_task 1 ''u1'' ''abc'')) ''a_c'' \<and>
   tasks (pending abc_only) = [mk_task 1 ''u1'' ''abc''] \<and>
   fst (add_task abc_only 5 ''u1'' (Some ''a_c'') None) = RWarning 1 ''abc'' None False"
  by code_simp

lemma leak_fragment:
  "tasks (pending abc_only) = [mk_task 1 ''u1'' ''abc''] \<and>
   \<not> substring_match ''a_c'' (t_title (mk_task 1 ''u1'' ''abc'')) \<and>
   status_of (fst (complete_task abc_only 5 ''u1'' None (Some ''a_c''))) = ''success'' \<and>
   status_of (fst (delete_task abc_only ''u1'' None (Some ''a_c''))) = ''success'' \<and>
   status_of (fst (update_task abc_only 5 ''u1'' None (Some ''a_c'') (Some ''x'') None)) = ''success''"
  by code_simp

text \<open>
  Claim C10.  The new title of \<open>add_task\<close> and the fragments of \<open>complete_task\<close>,
  \<open>delete_task\<close> and \<open>update_task\<close> go to \<open>ilike\<close> as patterns, unescaped.  So there are two
  titles that differ, case-insensitively, for which \<open>add_task\<close> reports a duplicate, and there
  is a fragment with which the three tools resolve and change a task whose title does not
  contain it.
\<close>

theorem like_wildcard_leakage:
  "(\<exists>s now u existing new_title.
      \<not> same_title (t_title existing) new_title \<and>
      tasks (pending s) = [existing] \<and>
      fst (add_task s now u (Some new_title) None)
        = RWarning (t_id existing) (t_title existing) (t_description existing)
                   (t_completed existing)) \<and>
   (\<exists>s now u t fragment.
      tasks (pending s) = [t] \<and>
      \<not> substring_match fragment (t_title t) \<and>
      status_of (fst (complete_task s now u None (Some fragment))) = ''success'' \<and>
      status_of (fst (delete_task s u None (Some fragment))) = ''success'' \<and>
      status_of (fst (update_task s now u None (Some fragment) (Some ''x'') None)) = ''success'')"
proof (intro conjI)
  show "\<exists>s now u existing new_title.
      \<not> same_title (t_title existing) new_title \<and>
      tasks (pending s) = [existing] \<and>
      fst (add_task s now u (Some new_title) None)
        = RWarning (t_id existing) (t_title existing) (t_description existing)
                   (t_completed existing)"
    using leak_add
    by (rule_tac x = abc_only in exI, rule_tac x = 5 in exI, rule_tac x = "''u1''" in exI,
        rule_tac x = "mk_task 1 ''u1'' ''abc''" in exI, rule_tac x = "''a_c''" in exI)
       (simp add: mk_task_def)
next
  show "\<exists>s now u t fragment.
      tasks (pending s) = [t] \<and>
      \<not> substring_match fragment (t_title t) \<and>
      status_of (fst (complete_task s now u None (Some fragment))) = ''success'' \<and>
      status_of (fst (delete_task s u None (Some fragment))) = ''success'' \<and>
      status_of (fst (update_task s now u None (Some fragment) (Some ''x'') None)) = ''success''"
    using leak_fragment
    by (rule_tac x = abc_only in exI, rule_tac x = 5 in exI, rule_tac x = "''u1''" in exI,
        rule_tac x = "mk_task 1 ''u1'' ''abc''" in exI, rule_tac x = "''a_c''" in exI)
       simp
qed


text \<open>
  The wildcard is read in the text that is supplied, not in the title that is stored: a
  stored \<open>a_c\<close> is no duplicate of a new \<open>abc\<close>.
\<close>

lemma stored_wildcard_is_literal:
  "status_of (fst (add_task (clean_session [mk_task 1 ''u1'' ''a_c''] 2) 5 ''u1'' (Some ''abc'') None))
     = ''success''"
  by code_simp

end
